theory Spec2Isabelle
  imports Main
begin

section \<open>The Gherkin parser of behave (behave/parser.py)\<close>

text \<open>
  A shallow embedding of \<^verbatim>\<open>behave/parser.py\<close>: the line-driven state machine of class
  \<^verbatim>\<open>Parser\<close>, its tag, step, doc-string and table sub-parsers and the failure oracle.

  Python text is modelled by \<^typ>\<open>string\<close>; a \<^typ>\<open>char\<close> stands for a code point below 256.
  Python exceptions are values of type \<open>error\<close>, functions that may raise return
  \<open>error + 'a\<close>, and every method of the parser takes the parser object and returns it
  updated.
\<close>

subsection \<open>Python string operations\<close>

definition isspace :: "char \<Rightarrow> bool" where
  \<comment> \<open>\<^verbatim>\<open>str.isspace\<close> on code points below 256.\<close>
  "isspace c = (c \<in> set [CHR 0x09, CHR 0x0A, CHR 0x0B, CHR 0x0C, CHR 0x0D,
     CHR 0x1C, CHR 0x1D, CHR 0x1E, CHR 0x1F, CHR 0x20, CHR 0x85, CHR 0xA0])"

definition lstrip :: "string \<Rightarrow> string" where
  "lstrip s = dropWhile isspace s"

definition rstrip :: "string \<Rightarrow> string" where
  "rstrip s = rev (dropWhile isspace (rev s))"

definition strip :: "string \<Rightarrow> string" where
  "strip s = rstrip (lstrip s)"

fun startswith :: "string \<Rightarrow> string \<Rightarrow> bool" where
  \<comment> \<open>\<^verbatim>\<open>s.startswith(p)\<close>\<close>
  "startswith s [] = True"
| "startswith [] (p # ps) = False"
| "startswith (c # cs) (p # ps) = (c = p \<and> startswith cs ps)"

definition endswith :: "string \<Rightarrow> string \<Rightarrow> bool" where
  "endswith s p = startswith (rev s) (rev p)"

definition upper_letters :: "string" where
  \<comment> \<open>The capitals below code point 256 and, in the same order, their lower-case forms.\<close>
  "upper_letters = ''ABCDEFGHIJKLMNOPQRSTUVWXYZ'' @
     [CHR 0xC0, CHR 0xC1, CHR 0xC2, CHR 0xC3, CHR 0xC4, CHR 0xC5, CHR 0xC6, CHR 0xC7, CHR 0xC8, CHR 0xC9, CHR 0xCA, CHR 0xCB, CHR 0xCC, CHR 0xCD, CHR 0xCE, CHR 0xCF,
      CHR 0xD0, CHR 0xD1, CHR 0xD2, CHR 0xD3, CHR 0xD4, CHR 0xD5, CHR 0xD6, CHR 0xD8, CHR 0xD9, CHR 0xDA, CHR 0xDB, CHR 0xDC, CHR 0xDD, CHR 0xDE]"

definition lower_letters :: "string" where
  "lower_letters = ''abcdefghijklmnopqrstuvwxyz'' @
     [CHR 0xE0, CHR 0xE1, CHR 0xE2, CHR 0xE3, CHR 0xE4, CHR 0xE5, CHR 0xE6, CHR 0xE7, CHR 0xE8, CHR 0xE9, CHR 0xEA, CHR 0xEB, CHR 0xEC, CHR 0xED, CHR 0xEE, CHR 0xEF,
      CHR 0xF0, CHR 0xF1, CHR 0xF2, CHR 0xF3, CHR 0xF4, CHR 0xF5, CHR 0xF6, CHR 0xF8, CHR 0xF9, CHR 0xFA, CHR 0xFB, CHR 0xFC, CHR 0xFD, CHR 0xFE]"

definition lower_char :: "char \<Rightarrow> char" where
  \<comment> \<open>\<^verbatim>\<open>str.lower\<close> on code points below 256: A-Z and the accented capitals
      0xC0-0xDE (without the multiplication sign 0xD7) move up by 32.\<close>
  "lower_char c = (case map_of (zip upper_letters lower_letters) c of Some d \<Rightarrow> d | None \<Rightarrow> c)"

definition lower :: "string \<Rightarrow> string" where
  "lower s = map lower_char s"

fun split_acc :: "string \<Rightarrow> string \<Rightarrow> string list" where
  "split_acc [] w = (if w = [] then [] else [w])"
| "split_acc (c # cs) w =
     (if isspace c then (if w = [] then split_acc cs [] else w # split_acc cs [])
      else split_acc cs (w @ [c]))"

definition split :: "string \<Rightarrow> string list" where
  \<comment> \<open>\<^verbatim>\<open>s.split()\<close>: the words between runs of whitespace.\<close>
  "split s = split_acc s []"

definition is_linebreak :: "char \<Rightarrow> bool" where
  "is_linebreak c = (c \<in> set [CHR 0x0A, CHR 0x0B, CHR 0x0C, CHR 0x0D,
     CHR 0x1C, CHR 0x1D, CHR 0x1E, CHR 0x85])"

fun splitlines_acc :: "string \<Rightarrow> string \<Rightarrow> string list" where
  "splitlines_acc [] cur = (if cur = [] then [] else [cur])"
| "splitlines_acc [c] cur =
     (if is_linebreak c then [cur] else [cur @ [c]])"
| "splitlines_acc (c # d # cs) cur =
     (if c = CHR 0x0D \<and> d = CHR 0x0A then cur # splitlines_acc cs []
      else if is_linebreak c then cur # splitlines_acc (d # cs) []
      else splitlines_acc (d # cs) (cur @ [c]))"

definition splitlines :: "string \<Rightarrow> string list" where
  \<comment> \<open>\<^verbatim>\<open>text.splitlines()\<close>: CR LF counts as one boundary; no empty last line.\<close>
  "splitlines txt = splitlines_acc txt []"

fun join :: "string \<Rightarrow> string list \<Rightarrow> string" where
  \<comment> \<open>\<^verbatim>\<open>sep.join(xs)\<close>\<close>
  "join sep [] = []"
| "join sep [x] = x"
| "join sep (x # y # xs) = x @ sep @ join sep (y # xs)"

fun str_index :: "string \<Rightarrow> char \<Rightarrow> nat option" where
  \<comment> \<open>\<^verbatim>\<open>s.index(c)\<close>; \<open>None\<close> stands for the ValueError.\<close>
  "str_index [] c = None"
| "str_index (x # xs) c = (if x = c then Some 0 else map_option Suc (str_index xs c))"

fun split_pipes :: "bool \<Rightarrow> string \<Rightarrow> string \<Rightarrow> string list" where
  \<comment> \<open>\<^verbatim>\<open>re.split(r"(?<!\\)\|", s)\<close>: the flag says that the character before is a
      backslash; a pipe after a backslash is data.\<close>
  "split_pipes esc [] cur = [cur]"
| "split_pipes esc (c # cs) cur =
     (if c = CHR ''|'' \<and> \<not> esc then cur # split_pipes False cs []
      else split_pipes (c = CHR 0x5C) cs (cur @ [c]))"

fun unescape_pipes :: "string \<Rightarrow> string" where
  \<comment> \<open>\<^verbatim>\<open>cell.replace("\\|", "|")\<close>\<close>
  "unescape_pipes (a # b # cs) =
     (if a = CHR 0x5C \<and> b = CHR ''|'' then CHR ''|'' # unescape_pipes cs
      else a # unescape_pipes (b # cs))"
| "unescape_pipes cs = cs"

definition table_cells :: "string \<Rightarrow> string list" where
  \<comment> \<open>The cells of a stripped table row: \<^verbatim>\<open>line[1:-1]\<close> split at unescaped pipes.\<close>
  "table_cells ln =
     map (\<lambda>cell. strip (unescape_pipes cell)) (split_pipes False (butlast (tl ln)) [])"

subsection \<open>The AST (behave/model.py)\<close>

text \<open>
  The node classes of \<^verbatim>\<open>behave.model\<close> are not part of the sources at hand. Their
  records hold the constructor arguments the parser passes and the attributes it reads and
  writes, as \<^verbatim>\<open>parser.py\<close> uses them.
\<close>

datatype step_type = Given | When | Then | And | But | StepT
  \<comment> \<open>The strings "given", "when", "then", "and", "but" of \<^verbatim>\<open>parse_step\<close>, and "step", the
      type under which the step registry (\<^verbatim>\<open>step_registry.py\<close>) files generic step
      definitions.\<close>

record tag =
  tag_name :: string
  tag_line :: nat

record row =
  row_cells :: "string list"
  row_line :: nat

record table =
  table_headings :: "string list"
  table_line :: nat
  table_rows :: "row list"

record doc_text =
  text_value :: string
  text_content_type :: string
  text_line :: "nat option"

record step =
  step_filename :: "string option"
  step_line :: nat
  step_keyword :: string
  step_step_type :: step_type
  step_name :: string
  step_text :: "doc_text option"
  step_table :: "table option"

record examples_node =
  ex_filename :: "string option"
  ex_line :: nat
  ex_keyword :: string
  ex_name :: string
  ex_tags :: "tag list"
  ex_table :: "table option"

record scenario =
  sc_filename :: "string option"
  sc_line :: nat
  sc_keyword :: string
  sc_name :: string
  sc_tags :: "tag list"
  sc_description :: "string list"
  sc_steps :: "step list"
  sc_is_outline :: bool  \<comment> \<open>an instance of \<^verbatim>\<open>ScenarioOutline\<close>\<close>
  sc_examples :: "examples_node list"  \<comment> \<open>of a \<^verbatim>\<open>ScenarioOutline\<close> only\<close>

record background =
  bg_filename :: "string option"
  bg_line :: nat
  bg_keyword :: string
  bg_name :: string
  bg_description :: "string list"
  bg_steps :: "step list"

record container_body =
  \<comment> \<open>What Feature and Rule share as scenario containers.\<close>
  cb_background :: "background option"
  cb_scenarios :: "scenario list"

record rule_node =
  rule_filename :: "string option"
  rule_line :: nat
  rule_keyword :: string
  rule_name :: string
  rule_tags :: "tag list"
  rule_description :: "string list"
  rule_body :: container_body

type_synonym ref = nat
  \<comment> \<open>The identity of a Python object.\<close>

record feature_node =
  feat_filename :: "string option"
  feat_line :: nat
  feat_keyword :: string
  feat_name :: string
  feat_tags :: "tag list"
  feat_language :: string
  feat_description :: "string list"
  feat_body :: container_body
  feat_rules :: "rule_node list"
  feat_parser :: "ref option"  \<comment> \<open>the attribute \<^verbatim>\<open>feature.parser\<close>\<close>

definition Table :: "string list \<Rightarrow> nat \<Rightarrow> table" where
  "Table hs ln = \<lparr>table_headings = hs, table_line = ln, table_rows = []\<rparr>"

definition add_row :: "string list \<Rightarrow> nat \<Rightarrow> table \<Rightarrow> table" where
  "add_row cs ln t = t\<lparr>table_rows := table_rows t @ [\<lparr>row_cells = cs, row_line = ln\<rparr>]\<rparr>"

definition Step :: "string option \<Rightarrow> nat \<Rightarrow> string \<Rightarrow> step_type \<Rightarrow> string \<Rightarrow> step" where
  "Step fn ln kw ty nm =
     \<lparr>step_filename = fn, step_line = ln, step_keyword = kw, step_step_type = ty,
      step_name = nm, step_text = None, step_table = None\<rparr>"

definition empty_body :: container_body where
  "empty_body = \<lparr>cb_background = None, cb_scenarios = []\<rparr>"

subsection \<open>The keyword table (behave/i18n.py)\<close>

datatype concept =
  K_feature | K_rule | K_background | K_scenario | K_scenario_outline | K_examples
| K_given | K_when | K_then | K_and | K_but

type_synonym keyword_table = "concept \<Rightarrow> string list"
  \<comment> \<open>One language: the ordered aliases of every concept.\<close>

type_synonym languages = "string \<rightharpoonup> keyword_table"
  \<comment> \<open>\<^verbatim>\<open>i18n.languages\<close>, a parameter of the model.\<close>

definition DEFAULT_LANGUAGE :: string where
  "DEFAULT_LANGUAGE = ''en''"

subsection \<open>Errors\<close>

datatype error =
    ParserError string nat "string option" "string option" "string option"
      \<comment> \<open>message, line, filename, line_text, reason: the arguments of the constructor\<close>
  | LanguageNotSupported string
  | AttributeError
  | TypeError
  | IndexError
  | ValueError

definition lookup_language :: "languages \<Rightarrow> string \<Rightarrow> error + keyword_table" where
  \<comment> \<open>Modelled from the spec: the lookup \<^verbatim>\<open>i18n.languages[language]\<close> in the keyword table,
      which is not among the sources at hand; an unknown language tag fails with
      LanguageNotSupported.\<close>
  "lookup_language langs l =
     (case langs l of None \<Rightarrow> Inl (LanguageNotSupported l) | Some kws \<Rightarrow> Inr kws)"

definition bindE :: "error + 'a \<Rightarrow> ('a \<Rightarrow> error + 'b) \<Rightarrow> error + 'b" where
  \<comment> \<open>Sequencing: an exception of the first part ends the whole.\<close>
  "bindE m f = (case m of Inl e \<Rightarrow> Inl e | Inr x \<Rightarrow> f x)"

subsection \<open>The parser object\<close>

datatype State =
  INITIAL | FEATURE | RULE | BACKGROUND | SCENARIO | TAGGABLE_STATEMENT | STEPS | STEP
| MULTILINE_TEXT | TABLE

fun state_name :: "State \<Rightarrow> string" where
  \<comment> \<open>\<^verbatim>\<open>self.state.name.lower()\<close>\<close>
  "state_name INITIAL = ''initial''"
| "state_name FEATURE = ''feature''"
| "state_name RULE = ''rule''"
| "state_name BACKGROUND = ''background''"
| "state_name SCENARIO = ''scenario''"
| "state_name TAGGABLE_STATEMENT = ''taggable_statement''"
| "state_name STEPS = ''steps''"
| "state_name STEP = ''step''"
| "state_name MULTILINE_TEXT = ''multiline_text''"
| "state_name TABLE = ''table''"

text \<open>
  The attributes \<^verbatim>\<open>scenario_container\<close>, \<^verbatim>\<open>rule\<close>, \<^verbatim>\<open>statement\<close> and \<^verbatim>\<open>examples\<close> of the
  Python parser are references to objects that the Feature owns as well: appending a step
  to \<^verbatim>\<open>self.statement.steps\<close> changes the scenario inside \<^verbatim>\<open>self.feature\<close>. The model keeps
  every object once, at its owner, and a reference says where the object is:
  \<^item> the container is the Feature or the current Rule;
  \<^item> the current Rule is the last Rule of the Feature, or, without a Feature, an object
    that only the parser holds;
  \<^item> the statement is the current Rule, the Background of the container, the last
    scenario of the container, or a scenario that only the parser holds (no container);
  \<^item> \<^verbatim>\<open>self.examples\<close>, when set, is the last Examples of the statement.
  Reading and writing through a reference is done by the \<open>get_\<close> and \<open>upd_\<close> functions.
\<close>

datatype container_ref = NoContainer | TheFeature | TheRule

datatype rule_ref = NoRule | LastRule | DetachedRule rule_node

datatype statement_ref =
  NoStatement | RuleStatement | BackgroundStatement | ScenarioStatement
| DetachedScenario scenario

record parser =
  self :: ref
  STRIP_STEPS_WITH_TRAILING_COLON :: bool
  language :: "string option"
  variant :: string
  kwtable :: "keyword_table option"  \<comment> \<open>\<^verbatim>\<open>self.keywords\<close>\<close>
  state :: State
  line :: nat
  last_step_type :: "step_type option"
  multiline_start :: "nat option"
  multiline_leading :: "nat option"
  multiline_terminator :: "string option"
  filename :: "string option"
  scenario_container :: container_ref
  feature :: "feature_node option"
  rule :: rule_ref
  statement :: statement_ref
  tags :: "tag list"
  lines :: "string list"
  table :: "table option"
  examples :: bool

datatype stmt = SRule rule_node | SBackground background | SScenario scenario
  \<comment> \<open>The object behind \<^verbatim>\<open>self.statement\<close>.\<close>

definition upd_last :: "('a \<Rightarrow> 'a) \<Rightarrow> 'a list \<Rightarrow> 'a list" where
  "upd_last g xs = (if xs = [] then [] else butlast xs @ [g (last xs)])"

definition get_rule :: "parser \<Rightarrow> rule_node option" where
  "get_rule s =
     (case rule s of
        NoRule \<Rightarrow> None
      | DetachedRule r \<Rightarrow> Some r
      | LastRule \<Rightarrow>
          (case feature s of
             None \<Rightarrow> None
           | Some f \<Rightarrow> if feat_rules f = [] then None else Some (last (feat_rules f))))"

definition upd_rule :: "(rule_node \<Rightarrow> rule_node) \<Rightarrow> parser \<Rightarrow> parser" where
  "upd_rule g s =
     (case rule s of
        NoRule \<Rightarrow> s
      | DetachedRule r \<Rightarrow> s\<lparr>rule := DetachedRule (g r)\<rparr>
      | LastRule \<Rightarrow>
          s\<lparr>feature := map_option (\<lambda>f. f\<lparr>feat_rules := upd_last g (feat_rules f)\<rparr>) (feature s)\<rparr>)"

definition get_container :: "parser \<Rightarrow> container_body option" where
  "get_container s =
     (case scenario_container s of
        NoContainer \<Rightarrow> None
      | TheFeature \<Rightarrow> map_option feat_body (feature s)
      | TheRule \<Rightarrow> map_option rule_body (get_rule s))"

definition upd_container :: "(container_body \<Rightarrow> container_body) \<Rightarrow> parser \<Rightarrow> parser" where
  "upd_container g s =
     (case scenario_container s of
        NoContainer \<Rightarrow> s
      | TheFeature \<Rightarrow> s\<lparr>feature := map_option (\<lambda>f. f\<lparr>feat_body := g (feat_body f)\<rparr>) (feature s)\<rparr>
      | TheRule \<Rightarrow> upd_rule (\<lambda>r. r\<lparr>rule_body := g (rule_body r)\<rparr>) s)"

definition get_statement :: "parser \<Rightarrow> stmt option" where
  "get_statement s =
     (case statement s of
        NoStatement \<Rightarrow> None
      | RuleStatement \<Rightarrow> map_option SRule (get_rule s)
      | BackgroundStatement \<Rightarrow>
          (case get_container s of
             None \<Rightarrow> None
           | Some b \<Rightarrow> map_option SBackground (cb_background b))
      | ScenarioStatement \<Rightarrow>
          (case get_container s of
             None \<Rightarrow> None
           | Some b \<Rightarrow> if cb_scenarios b = [] then None else Some (SScenario (last (cb_scenarios b))))
      | DetachedScenario sc \<Rightarrow> Some (SScenario sc))"

definition on_rule :: "(stmt \<Rightarrow> stmt) \<Rightarrow> rule_node \<Rightarrow> rule_node" where
  "on_rule g r = (case g (SRule r) of SRule r' \<Rightarrow> r' | _ \<Rightarrow> r)"

definition on_background :: "(stmt \<Rightarrow> stmt) \<Rightarrow> background \<Rightarrow> background" where
  "on_background g b = (case g (SBackground b) of SBackground b' \<Rightarrow> b' | _ \<Rightarrow> b)"

definition on_scenario :: "(stmt \<Rightarrow> stmt) \<Rightarrow> scenario \<Rightarrow> scenario" where
  "on_scenario g sc = (case g (SScenario sc) of SScenario sc' \<Rightarrow> sc' | _ \<Rightarrow> sc)"

definition upd_statement :: "(stmt \<Rightarrow> stmt) \<Rightarrow> parser \<Rightarrow> parser" where
  \<comment> \<open>A change of the statement object, written where the object is kept.\<close>
  "upd_statement g s =
     (case statement s of
        NoStatement \<Rightarrow> s
      | RuleStatement \<Rightarrow> upd_rule (on_rule g) s
      | BackgroundStatement \<Rightarrow>
          upd_container (\<lambda>b. b\<lparr>cb_background := map_option (on_background g) (cb_background b)\<rparr>) s
      | ScenarioStatement \<Rightarrow>
          upd_container (\<lambda>b. b\<lparr>cb_scenarios := upd_last (on_scenario g) (cb_scenarios b)\<rparr>) s
      | DetachedScenario sc \<Rightarrow> s\<lparr>statement := DetachedScenario (on_scenario g sc)\<rparr>)"

fun stmt_steps :: "stmt \<Rightarrow> step list option" where
  \<comment> \<open>\<^verbatim>\<open>statement.steps\<close>; a Rule has no such attribute.\<close>
  "stmt_steps (SRule r) = None"
| "stmt_steps (SBackground b) = Some (bg_steps b)"
| "stmt_steps (SScenario sc) = Some (sc_steps sc)"

fun stmt_map_steps :: "(step list \<Rightarrow> step list) \<Rightarrow> stmt \<Rightarrow> stmt" where
  "stmt_map_steps g (SRule r) = SRule r"
| "stmt_map_steps g (SBackground b) = SBackground (b\<lparr>bg_steps := g (bg_steps b)\<rparr>)"
| "stmt_map_steps g (SScenario sc) = SScenario (sc\<lparr>sc_steps := g (sc_steps sc)\<rparr>)"

fun stmt_add_description :: "string \<Rightarrow> stmt \<Rightarrow> stmt" where
  \<comment> \<open>\<^verbatim>\<open>statement.description.append(line)\<close>\<close>
  "stmt_add_description ln (SRule r) = SRule (r\<lparr>rule_description := rule_description r @ [ln]\<rparr>)"
| "stmt_add_description ln (SBackground b) =
     SBackground (b\<lparr>bg_description := bg_description b @ [ln]\<rparr>)"
| "stmt_add_description ln (SScenario sc) =
     SScenario (sc\<lparr>sc_description := sc_description sc @ [ln]\<rparr>)"

fun stmt_map_examples :: "(examples_node list \<Rightarrow> examples_node list) \<Rightarrow> stmt \<Rightarrow> stmt" where
  "stmt_map_examples g (SScenario sc) = SScenario (sc\<lparr>sc_examples := g (sc_examples sc)\<rparr>)"
| "stmt_map_examples g st = st"

definition statement_steps :: "parser \<Rightarrow> error + step list" where
  \<comment> \<open>Reading \<^verbatim>\<open>self.statement.steps\<close>.\<close>
  "statement_steps s =
     (case get_statement s of
        None \<Rightarrow> Inl AttributeError
      | Some st \<Rightarrow> (case stmt_steps st of None \<Rightarrow> Inl AttributeError | Some xs \<Rightarrow> Inr xs))"

definition append_step :: "step \<Rightarrow> parser \<Rightarrow> error + parser" where
  \<comment> \<open>\<^verbatim>\<open>self.statement.steps.append(step)\<close>\<close>
  "append_step st s =
     bindE (statement_steps s) (\<lambda>_. Inr (upd_statement (stmt_map_steps (\<lambda>xs. xs @ [st])) s))"

definition upd_last_step :: "(step \<Rightarrow> step) \<Rightarrow> parser \<Rightarrow> error + parser" where
  \<comment> \<open>Assignments to attributes of \<^verbatim>\<open>self.statement.steps[-1]\<close>.\<close>
  "upd_last_step g s =
     bindE (statement_steps s)
       (\<lambda>xs. if xs = [] then Inl IndexError
             else Inr (upd_statement (stmt_map_steps (upd_last g)) s))"

definition append_description :: "string \<Rightarrow> parser \<Rightarrow> error + parser" where
  \<comment> \<open>\<^verbatim>\<open>self.statement.description.append(line)\<close>\<close>
  "append_description ln s =
     (case get_statement s of
        None \<Rightarrow> Inl AttributeError
      | Some _ \<Rightarrow> Inr (upd_statement (stmt_add_description ln) s))"

definition container_background :: "parser \<Rightarrow> (step list \<times> step list) option" where
  \<comment> \<open>Modelled from the spec: \<^verbatim>\<open>scenario_container.background\<close> of \<^verbatim>\<open>behave.model\<close>, which is
      not among the sources at hand, as the pair of its \<^verbatim>\<open>steps\<close> and its \<^verbatim>\<open>inherited_steps\<close>.
      A Feature's Background inherits nothing. The Background of a Rule inherits the steps
      of its Feature's Background by reading them through; a Rule without a Background of
      its own, in a Feature that has one, has a default Background without steps.\<close>
  "container_background s =
     (case scenario_container s of
        NoContainer \<Rightarrow> None
      | TheFeature \<Rightarrow>
          (case feature s of
             None \<Rightarrow> None
           | Some f \<Rightarrow> map_option (\<lambda>b. (bg_steps b, [])) (cb_background (feat_body f)))
      | TheRule \<Rightarrow>
          (case get_rule s of
             None \<Rightarrow> None
           | Some r \<Rightarrow>
               (let inh = (case rule s of
                             LastRule \<Rightarrow>
                               (case feature s of
                                  None \<Rightarrow> None
                                | Some f \<Rightarrow> map_option bg_steps (cb_background (feat_body f)))
                           | _ \<Rightarrow> None)
                in case cb_background (rule_body r) of
                     Some b \<Rightarrow> Some (bg_steps b, (case inh of None \<Rightarrow> [] | Some xs \<Rightarrow> xs))
                   | None \<Rightarrow> map_option (\<lambda>xs. ([], xs)) inh)))"

definition truthy :: "string option \<Rightarrow> bool" where
  \<comment> \<open>Python's truth value of a string or None.\<close>
  "truthy x = (case x of None \<Rightarrow> False | Some v \<Rightarrow> v \<noteq> [])"

definition language_or_default :: "string option \<Rightarrow> string" where
  \<comment> \<open>\<^verbatim>\<open>self.language or DEFAULT_LANGUAGE\<close>\<close>
  "language_or_default l = (if truthy l then the l else DEFAULT_LANGUAGE)"

definition Parser ::
  "languages \<Rightarrow> ref \<Rightarrow> bool \<Rightarrow> string option \<Rightarrow> string option \<Rightarrow> error + parser" where
  \<comment> \<open>\<^verbatim>\<open>Parser.__init__(language, variant)\<close>. The object's identity and the class attribute
      \<^verbatim>\<open>STRIP_STEPS_WITH_TRAILING_COLON\<close> (read from the environment) are parameters.\<close>
  "Parser langs me strip_colon l v =
     bindE (lookup_language langs (language_or_default l))
       (\<lambda>_. bindE (if truthy l then bindE (lookup_language langs (the l)) (\<lambda>k. Inr (Some k))
                    else Inr None)
          (\<lambda>kws. Inr \<lparr>self = me, STRIP_STEPS_WITH_TRAILING_COLON = strip_colon,
                 language = l, variant = (if truthy v then the v else ''feature''),
                 kwtable = kws, state = INITIAL, line = 0, last_step_type = None,
                 multiline_start = None, multiline_leading = None,
                 multiline_terminator = None, filename = None,
                 scenario_container = NoContainer, feature = None, rule = NoRule,
                 statement = NoStatement, tags = [], lines = [], table = None,
                 examples = False\<rparr>))"

definition reset :: "languages \<Rightarrow> string option \<Rightarrow> parser \<Rightarrow> error + parser" where
  "reset langs fn s =
     (let l = language_or_default (language s)
      in bindE (lookup_language langs l)
           (\<lambda>kws. Inr (s\<lparr>language := Some l, kwtable := Some kws, state := INITIAL, line := 0,
                  last_step_type := None, multiline_start := None,
                  multiline_leading := None, multiline_terminator := None,
                  filename := fn, scenario_container := NoContainer, feature := None,
                  rule := NoRule, statement := NoStatement, tags := [], lines := [],
                  table := None, examples := False\<rparr>)))"

subsection \<open>Building the nodes\<close>

definition statement_title :: "string \<Rightarrow> string \<Rightarrow> string" where
  \<comment> \<open>\<^verbatim>\<open>line[len(keyword) + 1:].strip()\<close>\<close>
  "statement_title kw ln = strip (drop (length kw + 1) ln)"

definition build_feature :: "string \<Rightarrow> string \<Rightarrow> parser \<Rightarrow> parser" where
  "build_feature kw ln s =
     s\<lparr>feature := Some \<lparr>feat_filename = filename s, feat_line = line s, feat_keyword = kw,
                         feat_name = statement_title kw ln, feat_tags = tags s,
                         feat_language = language_or_default (language s),
                         feat_description = [], feat_body = empty_body, feat_rules = [],
                         feat_parser = None\<rparr>,
       scenario_container := TheFeature, rule := NoRule, tags := []\<rparr>"

definition build_rule_statement :: "string \<Rightarrow> string \<Rightarrow> parser \<Rightarrow> parser" where
  "build_rule_statement kw ln s =
     (let r = \<lparr>rule_filename = filename s, rule_line = line s, rule_keyword = kw,
               rule_name = statement_title kw ln, rule_tags = tags s,
               rule_description = [], rule_body = empty_body\<rparr>
      in case feature s of
           Some f \<Rightarrow>
             s\<lparr>rule := LastRule, scenario_container := TheRule, statement := RuleStatement,
               feature := Some (f\<lparr>feat_rules := feat_rules f @ [r]\<rparr>), tags := []\<rparr>
         | None \<Rightarrow>
             s\<lparr>rule := DetachedRule r, scenario_container := TheRule,
               statement := RuleStatement, tags := []\<rparr>)"

definition build_background_statement :: "string \<Rightarrow> string \<Rightarrow> parser \<Rightarrow> error + parser" where
  "build_background_statement kw ln s =
     (if tags s \<noteq> [] then
        Inl (ParserError (''Background supports no tags: @'' @ join '' @'' (map tag_name (tags s)))
               (line s) (filename s) (Some ln) None)
      else if (case container_background s of None \<Rightarrow> False | Some (own, inh) \<Rightarrow> own \<noteq> []) then
        Inl (ParserError ''Second Background (can have only one)''
               (line s) (filename s) (Some ln) None)
      else if get_container s = None then Inl AttributeError
      else
        Inr ((upd_container
               (\<lambda>b. b\<lparr>cb_background :=
                      Some \<lparr>bg_filename = filename s, bg_line = line s, bg_keyword = kw,
                            bg_name = statement_title kw ln, bg_description = [],
                            bg_steps = []\<rparr>\<rparr>) s)
             \<lparr>statement := BackgroundStatement\<rparr>))"

definition Scenario :: "bool \<Rightarrow> string \<Rightarrow> string \<Rightarrow> parser \<Rightarrow> scenario" where
  \<comment> \<open>\<^verbatim>\<open>model.Scenario(...)\<close>, or \<^verbatim>\<open>model.ScenarioOutline(...)\<close> when the flag is set.\<close>
  "Scenario outline kw ln s =
     \<lparr>sc_filename = filename s, sc_line = line s, sc_keyword = kw,
      sc_name = statement_title kw ln, sc_tags = tags s, sc_description = [],
      sc_steps = [], sc_is_outline = outline, sc_examples = []\<rparr>"

definition build_scenario_statement :: "string \<Rightarrow> string \<Rightarrow> parser \<Rightarrow> parser" where
  "build_scenario_statement kw ln s =
     (if get_container s \<noteq> None then
        (upd_container (\<lambda>b. b\<lparr>cb_scenarios := cb_scenarios b @ [Scenario False kw ln s]\<rparr>) s)
        \<lparr>statement := ScenarioStatement, tags := []\<rparr>
      else s\<lparr>statement := DetachedScenario (Scenario False kw ln s), tags := []\<rparr>)"

definition build_scenario_outline_statement ::
  "string \<Rightarrow> string \<Rightarrow> parser \<Rightarrow> error + parser" where
  "build_scenario_outline_statement kw ln s =
     (if get_container s = None then Inl AttributeError
      else
        Inr ((upd_container (\<lambda>b. b\<lparr>cb_scenarios := cb_scenarios b @ [Scenario True kw ln s]\<rparr>) s)
             \<lparr>statement := ScenarioStatement, tags := []\<rparr>))"

definition is_outline :: "stmt option \<Rightarrow> bool" where
  \<comment> \<open>\<^verbatim>\<open>isinstance(self.statement, model.ScenarioOutline)\<close>\<close>
  "is_outline st = (case st of Some (SScenario sc) \<Rightarrow> sc_is_outline sc | _ \<Rightarrow> False)"

definition build_examples :: "string \<Rightarrow> string \<Rightarrow> parser \<Rightarrow> error + parser" where
  "build_examples kw ln s =
     (if \<not> is_outline (get_statement s) then
        Inl (ParserError ''Examples must only appear inside scenario outline''
               (line s) (filename s) (Some ln) None)
      else
        Inr ((upd_statement
               (stmt_map_examples
                  (\<lambda>xs. xs @ [\<lparr>ex_filename = filename s, ex_line = line s, ex_keyword = kw,
                                ex_name = statement_title kw ln, ex_tags = tags s,
                                ex_table = None\<rparr>])) s)
             \<lparr>examples := True, tags := []\<rparr>))"

subsection \<open>Keywords, tags and steps\<close>

definition match_keyword ::
  "languages \<Rightarrow> concept \<Rightarrow> string \<Rightarrow> parser \<Rightarrow> error + (string option \<times> parser)" where
  "match_keyword langs k ln s =
     bindE (case kwtable s of
              Some kws \<Rightarrow> Inr (kws, s)
            | None \<Rightarrow>
                bindE (lookup_language langs DEFAULT_LANGUAGE)
                  (\<lambda>kws. Inr (kws, s\<lparr>language := Some DEFAULT_LANGUAGE, kwtable := Some kws\<rparr>)))
       (\<lambda>(kws, s'). Inr (find (\<lambda>alias. startswith ln (alias @ '':'')) (kws k), s'))"

fun tags_of_words :: "string list \<Rightarrow> string \<Rightarrow> parser \<Rightarrow> error + tag list" where
  \<comment> \<open>The loop of \<^verbatim>\<open>parse_tags\<close> over the words of the line.\<close>
  "tags_of_words [] ln s = Inr []"
| "tags_of_words (w # ws) ln s =
     (if startswith w ''@'' then
        bindE (tags_of_words ws ln s)
          (\<lambda>ts. Inr (\<lparr>tag_name = tl w, tag_line = line s\<rparr> # ts))
      else if startswith w ''#'' then Inr []
      else Inl (ParserError (''tag: '' @ w @ '' (line: '' @ ln @ '')'')
                  (line s) (filename s) None None))"

definition parse_tags :: "string \<Rightarrow> parser \<Rightarrow> error + tag list" where
  \<comment> \<open>For a line without the leading \<^verbatim>\<open>@\<close> the source calls \<^verbatim>\<open>ParserError(message)\<close> without
      the line argument that the constructor requires, which is a TypeError.\<close>
  "parse_tags ln s =
     (if \<not> startswith ln ''@'' then Inl TypeError else tags_of_words (split ln) ln s)"

definition step_candidates :: "keyword_table \<Rightarrow> (step_type \<times> string) list" where
  \<comment> \<open>The pairs the two nested loops of \<^verbatim>\<open>parse_step\<close> visit, in their order.\<close>
  "step_candidates kws =
     concat (map (\<lambda>(ty, k). map (Pair ty) (kws k))
       [(Given, K_given), (When, K_when), (Then, K_then), (And, K_and), (But, K_but)])"

definition kw_matches :: "string \<Rightarrow> string \<Rightarrow> bool" where
  "kw_matches ln kw = (startswith ln kw \<or> startswith (lower ln) (lower kw))"

definition find_step_keyword :: "keyword_table \<Rightarrow> string \<Rightarrow> (step_type \<times> string) option" where
  "find_step_keyword kws ln = find (\<lambda>(ty, kw). kw_matches ln kw) (step_candidates kws)"

definition select_last_background_step_type :: "parser \<Rightarrow> step_type option" where
  "select_last_background_step_type s =
     (case container_background s of
        None \<Rightarrow> None
      | Some (own, inh) \<Rightarrow>
          (let this_background_steps = (if own \<noteq> [] then own else inh)
           in if this_background_steps \<noteq> []
              then Some (step_step_type (last this_background_steps)) else None))"

definition and_or_but_message :: "step_type \<Rightarrow> string" where
  "and_or_but_message ty =
     (if ty = And then ''AND'' else ''BUT'') @ ''-STEP REQUIRES: An previous Given/When/Then step.''"

definition parse_step :: "string \<Rightarrow> parser \<Rightarrow> error + (step option \<times> parser)" where
  "parse_step ln s =
     (case kwtable s of
        None \<Rightarrow> Inl TypeError
      | Some kws \<Rightarrow>
          (case find_step_keyword kws ln of
             None \<Rightarrow> Inr (None, s)
           | Some (ty, kw) \<Rightarrow>
               (let step_text_after_keyword = strip (drop (length kw) ln);
                    mk = (\<lambda>t. Step (filename s) (line s) (rstrip kw) t step_text_after_keyword)
                in if startswith kw ''*'' \<and> last_step_type s \<noteq> None then
                     Inr (Some (mk (the (last_step_type s))), s)
                   else if ty = And \<or> ty = But then
                     (case last_step_type s of
                        Some t \<Rightarrow> Inr (Some (mk t), s)
                      | None \<Rightarrow>
                          (case select_last_background_step_type s of
                             None \<Rightarrow>
                               Inl (ParserError (and_or_but_message ty) (line s) (filename s)
                                      None None)
                           | Some t \<Rightarrow> Inr (Some (mk t), s\<lparr>last_step_type := Some t\<rparr>)))
                   else Inr (Some (mk ty), s\<lparr>last_step_type := Some ty\<rparr>))))"

subsection \<open>The failure oracle\<close>

definition diagnose_feature_usage_error :: "parser \<Rightarrow> string" where
  "diagnose_feature_usage_error s =
     (if feature s \<noteq> None then ''Multiple features in one file are not supported.''
      else ''Feature should not be used here.'')"

definition diagnose_rule_usage_error :: string where
  "diagnose_rule_usage_error = ''Rule should not be used here.''"

definition diagnose_background_usage_error :: "parser \<Rightarrow> string" where
  "diagnose_background_usage_error s =
     (if (case get_container s of None \<Rightarrow> False | Some b \<Rightarrow> cb_scenarios b \<noteq> []) then
        ''Background may not occur after Scenario/ScenarioOutline.''
      else if tags s \<noteq> [] then ''Background does not support tags.''
      else ''Background should not be used here.'')"

definition diagnose_scenario_usage_error :: "parser \<Rightarrow> string" where
  "diagnose_scenario_usage_error s =
     (if get_container s = None then ''Scenario may not occur before Feature.''
      else ''Scenario should not be used here.'')"

definition diagnose_scenario_outline_usage_error :: "parser \<Rightarrow> string" where
  "diagnose_scenario_outline_usage_error s =
     (if get_container s = None then ''ScenarioOutline may not occur before Feature.''
      else ''ScenarioOutline should not be used here.'')"

definition ask_parse_failure_oracle ::
  "languages \<Rightarrow> string \<Rightarrow> parser \<Rightarrow> error + (string option \<times> parser)" where
  "ask_parse_failure_oracle langs ln s =
     bindE (match_keyword langs K_feature ln s) (\<lambda>(feature_keyword, s1).
       if truthy feature_keyword then Inr (Some (diagnose_feature_usage_error s1), s1) else
     bindE (match_keyword langs K_rule ln s1) (\<lambda>(rule_keyword, s2).
       if truthy rule_keyword then Inr (Some diagnose_rule_usage_error, s2) else
     bindE (match_keyword langs K_background ln s2) (\<lambda>(background_keyword, s3).
       if truthy background_keyword then Inr (Some (diagnose_background_usage_error s3), s3) else
     bindE (match_keyword langs K_scenario ln s3) (\<lambda>(scenario_keyword, s4).
       if truthy scenario_keyword then Inr (Some (diagnose_scenario_usage_error s4), s4) else
     bindE (match_keyword langs K_scenario_outline ln s4) (\<lambda>(scenario_outline_keyword, s5).
       if truthy scenario_outline_keyword
       then Inr (Some (diagnose_scenario_outline_usage_error s5), s5)
       else if variant s5 = ''feature'' \<and> feature s5 = None
       then Inr (Some ''No feature found.'', s5)
       else Inr (None, s5))))))"

subsection \<open>The state handlers\<close>

text \<open>
  A handler returns the truth value the Python method returns, with the parser object
  after the call. In the source \<^verbatim>\<open>action_steps\<close> hands a line that starts with a pipe to
  \<^verbatim>\<open>action_table\<close>, and \<^verbatim>\<open>action_table\<close> hands a line that does not to \<^verbatim>\<open>action_steps\<close>;
  \<open>table_row\<close> is the part of \<^verbatim>\<open>action_table\<close> for a line that starts with a pipe, so that
  the two handlers are defined one after the other.
\<close>

definition subaction_detect_taggable_statement ::
  "languages \<Rightarrow> string \<Rightarrow> parser \<Rightarrow> error + (bool \<times> parser)" where
  "subaction_detect_taggable_statement langs ln s =
     (if startswith ln ''@'' then
        bindE (parse_tags ln s)
          (\<lambda>ts. Inr (True, s\<lparr>tags := tags s @ ts, state := TAGGABLE_STATEMENT\<rparr>))
      else
     bindE (match_keyword langs K_rule ln s) (\<lambda>(rule_keyword, s1).
       if truthy rule_keyword
       then Inr (True, (build_rule_statement (the rule_keyword) ln s1)\<lparr>state := RULE\<rparr>) else
     bindE (match_keyword langs K_scenario ln s1) (\<lambda>(scenario_keyword, s2).
       if truthy scenario_keyword
       then Inr (True, (build_scenario_statement (the scenario_keyword) ln s2)\<lparr>state := SCENARIO\<rparr>)
       else
     bindE (match_keyword langs K_scenario_outline ln s2) (\<lambda>(template_keyword, s3).
       if truthy template_keyword
       then bindE (build_scenario_outline_statement (the template_keyword) ln s3)
              (\<lambda>s4. Inr (True, s4\<lparr>state := SCENARIO\<rparr>))
       else
     bindE (match_keyword langs K_examples ln s3) (\<lambda>(examples_keyword, s4).
       if truthy examples_keyword
       then bindE (build_examples (the examples_keyword) ln s4)
              (\<lambda>s5. Inr (True, s5\<lparr>state := TABLE\<rparr>))
       else Inr (False, s4))))))"

definition action_initial :: "languages \<Rightarrow> string \<Rightarrow> parser \<Rightarrow> error + (bool \<times> parser)" where
  "action_initial langs ln0 s =
     (let ln = strip ln0
      in if startswith ln ''@'' then
           bindE (parse_tags ln s) (\<lambda>ts. Inr (True, s\<lparr>tags := tags s @ ts\<rparr>))
         else
           bindE (match_keyword langs K_feature ln s) (\<lambda>(feature_keyword, s1).
             if truthy feature_keyword
             then Inr (True, (build_feature (the feature_keyword) ln s1)\<lparr>state := FEATURE\<rparr>)
             else Inr (False, s1)))"

definition action_feature :: "languages \<Rightarrow> string \<Rightarrow> parser \<Rightarrow> error + (bool \<times> parser)" where
  "action_feature langs ln0 s =
     (let ln = strip ln0
      in bindE (subaction_detect_taggable_statement langs ln s) (\<lambda>(detected, s1).
           if detected then Inr (True, s1) else
         bindE (match_keyword langs K_background ln s1) (\<lambda>(background_keyword, s2).
           if truthy background_keyword
           then bindE (build_background_statement (the background_keyword) ln s2)
                  (\<lambda>s3. Inr (True, s3\<lparr>state := BACKGROUND\<rparr>))
           else (case feature s2 of
                   None \<Rightarrow> Inl AttributeError
                 | Some f \<Rightarrow>
                     Inr (True, s2\<lparr>feature :=
                            Some (f\<lparr>feat_description := feat_description f @ [ln]\<rparr>)\<rparr>)))))"

definition action_taggable_statement ::
  "languages \<Rightarrow> string \<Rightarrow> parser \<Rightarrow> error + (bool \<times> parser)" where
  "action_taggable_statement langs ln0 s =
     bindE (subaction_detect_taggable_statement langs (strip ln0) s)
       (\<lambda>(detected, s1). if detected then Inr (True, s1) else Inr (False, s1))"

definition action_rule :: "languages \<Rightarrow> string \<Rightarrow> parser \<Rightarrow> error + (bool \<times> parser)" where
  "action_rule langs ln0 s =
     (let ln = strip ln0
      in bindE (subaction_detect_taggable_statement langs ln s) (\<lambda>(detected, s1).
           if detected then Inr (True, s1) else
         bindE (match_keyword langs K_background ln s1) (\<lambda>(background_keyword, s2).
           if truthy background_keyword
           then bindE (build_background_statement (the background_keyword) ln s2)
                  (\<lambda>s3. Inr (True, s3\<lparr>state := BACKGROUND\<rparr>))
           else if get_rule s2 = None then Inl AttributeError
           else Inr (True,
                  upd_rule (\<lambda>r. r\<lparr>rule_description := rule_description r @ [ln]\<rparr>) s2))))"

definition action_scenario :: "languages \<Rightarrow> string \<Rightarrow> parser \<Rightarrow> error + (bool \<times> parser)" where
  "action_scenario langs ln0 s =
     (let ln = strip ln0
      in bindE (parse_step ln (s\<lparr>last_step_type := None\<rparr>)) (\<lambda>(step, s1).
           case step of
             Some st \<Rightarrow> bindE (append_step st (s1\<lparr>state := STEPS\<rparr>)) (\<lambda>s2. Inr (True, s2))
           | None \<Rightarrow>
               bindE (subaction_detect_taggable_statement langs ln s1) (\<lambda>(detected, s2).
                 if detected then Inr (True, s2)
                 else bindE (append_description ln s2) (\<lambda>s3. Inr (True, s3)))))"

definition action_background :: "languages \<Rightarrow> string \<Rightarrow> parser \<Rightarrow> error + (bool \<times> parser)" where
  "action_background langs ln0 s = action_scenario langs ln0 s"

definition row_matches :: "string \<Rightarrow> bool" where
  \<comment> \<open>\<^verbatim>\<open>re.match(r"^(|.+)\|$", line)\<close> for a stripped line that starts with a pipe: the line
      ends with a pipe, and no line feed stands before it.\<close>
  "row_matches ln = (endswith ln ''|'' \<and> CHR 0x0A \<notin> set (butlast ln))"

definition table_row :: "string \<Rightarrow> parser \<Rightarrow> error + (bool \<times> parser)" where
  \<comment> \<open>\<^verbatim>\<open>action_table\<close> on a stripped line that starts with a pipe. The warning for a
      malformed row reads \<^verbatim>\<open>self.feature.filename\<close>.\<close>
  "table_row ln s =
     (if \<not> row_matches ln \<and> feature s = None then Inl AttributeError
      else
        (let cells = table_cells ln
         in case table s of
              None \<Rightarrow> Inr (True, s\<lparr>table := Some (Table cells (line s))\<rparr>)
            | Some t \<Rightarrow>
                if length cells \<noteq> length (table_headings t)
                then Inl (ParserError ''Malformed table'' (line s) (filename s) None None)
                else Inr (True, s\<lparr>table := Some (add_row cells (line s) t)\<rparr>)))"

definition normalize_step_name :: "parser \<Rightarrow> step \<Rightarrow> step" where
  "normalize_step_name s st =
     (if STRIP_STEPS_WITH_TRAILING_COLON s \<and> endswith (step_name st) '':''
      then st\<lparr>step_name := butlast (step_name st)\<rparr> else st)"

definition triple_double_quotes :: string where
  "triple_double_quotes = [CHR 0x22, CHR 0x22, CHR 0x22]"

definition triple_single_quotes :: string where
  "triple_single_quotes = [CHR 0x27, CHR 0x27, CHR 0x27]"

definition action_steps :: "languages \<Rightarrow> string \<Rightarrow> parser \<Rightarrow> error + (bool \<times> parser)" where
  "action_steps langs ln0 s =
     (let stripped = lstrip ln0
      in if startswith stripped triple_double_quotes \<or> startswith stripped triple_single_quotes
         then
           bindE (statement_steps s) (\<lambda>xs.
             if xs = [] then
               Inl (ParserError ''Multi-line text before any step'' (line s) (filename s)
                      None None)
             else
               (case str_index ln0 (hd stripped) of
                  None \<Rightarrow> Inl ValueError
                | Some i \<Rightarrow>
                    Inr (True, s\<lparr>state := MULTILINE_TEXT, multiline_start := Some (line s),
                                 multiline_terminator := Some (take 3 stripped),
                                 multiline_leading := Some i\<rparr>)))
         else
           (let ln = strip ln0
            in bindE (parse_step ln s) (\<lambda>(step, s1).
                 case step of
                   Some st \<Rightarrow> bindE (append_step st s1) (\<lambda>s2. Inr (True, s2))
                 | None \<Rightarrow>
                     bindE (subaction_detect_taggable_statement langs ln s1) (\<lambda>(detected, s2).
                       if detected then Inr (True, s2)
                       else if startswith ln ''|'' then
                         bindE (statement_steps s2) (\<lambda>xs.
                           if xs = [] then
                             Inl (ParserError ''TABLE-START without step detected''
                                    (line s2) (filename s2) None None)
                           else table_row (strip ln) (s2\<lparr>state := TABLE\<rparr>))
                       else Inr (False, s2)))))"

definition action_table :: "languages \<Rightarrow> string \<Rightarrow> parser \<Rightarrow> error + (bool \<times> parser)" where
  "action_table langs ln0 s =
     (let ln = strip ln0
      in if \<not> startswith ln ''|'' then
           bindE (if examples s then
                    Inr ((upd_statement
                           (stmt_map_examples (upd_last (\<lambda>e. e\<lparr>ex_table := table s\<rparr>))) s)
                         \<lparr>examples := False\<rparr>)
                  else
                    upd_last_step (\<lambda>st. normalize_step_name s (st\<lparr>step_table := table s\<rparr>)) s)
             (\<lambda>s1. action_steps langs ln (s1\<lparr>table := None, state := STEPS\<rparr>))
         else table_row ln s)"

definition bad_indent_message :: "string \<Rightarrow> string \<Rightarrow> string" where
  "bad_indent_message ln removed_line_prefix =
     ''BAD-INDENT in multiline text: Line '' @ [CHR 0x27] @ ln @ [CHR 0x27] @
     '' would strip leading '' @ [CHR 0x27] @ removed_line_prefix @ [CHR 0x27]"

definition action_multiline_text :: "string \<Rightarrow> parser \<Rightarrow> error + (bool \<times> parser)" where
  \<comment> \<open>A slice bound that is None (\<^verbatim>\<open>line[None:]\<close>, \<^verbatim>\<open>line[:None]\<close>) leaves the line whole.\<close>
  "action_multiline_text ln s =
     (case multiline_terminator s of
        None \<Rightarrow> Inl TypeError
      | Some terminator \<Rightarrow>
          if startswith (strip ln) terminator then
            bindE (upd_last_step
                     (\<lambda>st. normalize_step_name s
                        (st\<lparr>step_text := Some \<lparr>text_value = join [CHR 0x0A] (lines s),
                                                text_content_type = ''text/plain'',
                                                text_line = multiline_start s\<rparr>\<rparr>)) s)
              (\<lambda>s1. Inr (True, s1\<lparr>lines := [], multiline_terminator := None, state := STEPS\<rparr>))
          else
            (let text_line = rstrip (case multiline_leading s of None \<Rightarrow> ln | Some k \<Rightarrow> drop k ln);
                 removed_line_prefix = (case multiline_leading s of None \<Rightarrow> ln | Some k \<Rightarrow> take k ln)
             in if strip removed_line_prefix \<noteq> [] then
                  Inl (ParserError (bad_indent_message ln removed_line_prefix)
                         (line s) (filename s) None None)
                else Inr (True, s\<lparr>lines := lines s @ [text_line]\<rparr>)))"

subsection \<open>Dispatch and the parsing loop\<close>

definition dispatch :: "languages \<Rightarrow> string \<Rightarrow> parser \<Rightarrow> error + (bool \<times> parser)" where
  \<comment> \<open>\<^verbatim>\<open>getattr(self, "action_" + state_name)\<close>: the state STEP has no handler.\<close>
  "dispatch langs ln s =
     (case state s of
        INITIAL \<Rightarrow> action_initial langs ln s
      | FEATURE \<Rightarrow> action_feature langs ln s
      | RULE \<Rightarrow> action_rule langs ln s
      | BACKGROUND \<Rightarrow> action_background langs ln s
      | SCENARIO \<Rightarrow> action_scenario langs ln s
      | TAGGABLE_STATEMENT \<Rightarrow> action_taggable_statement langs ln s
      | STEPS \<Rightarrow> action_steps langs ln s
      | STEP \<Rightarrow>
          Inl (ParserError ''Parser in unknown state State.STEP;'' (line s) (filename s)
                 (Some (strip ln)) None)
      | MULTILINE_TEXT \<Rightarrow> action_multiline_text ln s
      | TABLE \<Rightarrow> action_table langs ln s)"

definition action :: "languages \<Rightarrow> string \<Rightarrow> parser \<Rightarrow> error + parser" where
  "action langs ln s =
     (if startswith (strip ln) ''#'' \<and> state s \<noteq> MULTILINE_TEXT then
        (if state s \<noteq> INITIAL \<or> tags s \<noteq> [] \<or> variant s \<noteq> ''feature'' then Inr s
         else
           (let comment = strip (tl (strip ln))
            in if startswith (lower (lstrip comment)) ''language:'' then
                 (let l = strip (drop 9 comment)
                  in bindE (lookup_language langs l)
                       (\<lambda>kws. Inr (s\<lparr>language := Some l, kwtable := Some kws\<rparr>)))
               else Inr s))
      else
        bindE (dispatch langs ln s) (\<lambda>(accepted, s1).
          if accepted then Inr s1
          else
            bindE (ask_parse_failure_oracle langs (strip ln) s1) (\<lambda>(reason, s2).
              Inl (ParserError (CHR 0x0A # ''Parser failure in state='' @ state_name (state s2))
                     (line s2) (filename s2) (Some (strip ln)) reason))))"

fun run_lines :: "languages \<Rightarrow> string list \<Rightarrow> parser \<Rightarrow> error + parser" where
  \<comment> \<open>The loop of \<^verbatim>\<open>_parse_loop\<close> over the lines of the text.\<close>
  "run_lines langs [] s = Inr s"
| "run_lines langs (ln # rest) s =
     (let s1 = s\<lparr>line := line s + 1\<rparr>
      in if strip ln = [] \<and> state s1 \<noteq> MULTILINE_TEXT then run_lines langs rest s1
         else bindE (action langs ln s1) (run_lines langs rest))"

definition parse_loop ::
  "languages \<Rightarrow> string \<Rightarrow> State option \<Rightarrow> string option \<Rightarrow> parser \<Rightarrow> error + parser" where
  \<comment> \<open>\<^verbatim>\<open>_parse_loop(text, initial_state, filename)\<close>\<close>
  "parse_loop langs txt initial_state fn s =
     bindE (reset langs fn s) (\<lambda>s0.
       let s1 = (case initial_state of None \<Rightarrow> s0 | Some st \<Rightarrow> s0\<lparr>state := st\<rparr>)
       in bindE (if state s1 = STEPS then
                   (case kwtable s1 of
                      None \<Rightarrow> Inl TypeError
                    | Some kws \<Rightarrow>
                        (case kws K_scenario of
                           [] \<Rightarrow> Inl IndexError
                         | kw # _ \<Rightarrow> Inr (build_scenario_statement kw (kw @ '':'') s1)))
                 else Inr s1) (\<lambda>s2.
          bindE (run_lines langs (splitlines txt) s2) (\<lambda>s3.
            if table s3 \<noteq> None then bindE (action_table langs [] s3) (\<lambda>(_, s4). Inr s4)
            else Inr s3)))"

definition parse ::
  "languages \<Rightarrow> string \<Rightarrow> string option \<Rightarrow> parser \<Rightarrow> error + feature_node option" where
  \<comment> \<open>\<^verbatim>\<open>Parser.parse(text, filename)\<close>: the whole-file entry point.\<close>
  "parse langs txt fn s =
     bindE (parse_loop langs txt None fn s) (\<lambda>s1.
       Inr (case feature s1 of
              None \<Rightarrow> None
            | Some f \<Rightarrow> Some (f\<lparr>feat_parser := Some (self s1)\<rparr>)))"

fun with_filename :: "string option \<Rightarrow> error \<Rightarrow> error" where
  \<comment> \<open>\<^verbatim>\<open>except ParserError as e: e.filename = filename; raise\<close>\<close>
  "with_filename fn (ParserError msg ln _ line_text reason) = ParserError msg ln fn line_text reason"
| "with_filename fn e = e"

definition parse_feature ::
  "languages \<Rightarrow> ref \<Rightarrow> bool \<Rightarrow> string \<Rightarrow> string option \<Rightarrow> string option
     \<Rightarrow> error + feature_node option" where
  \<comment> \<open>\<^verbatim>\<open>parse_feature(text, language, filename)\<close>; the identity of the parser object it
      creates and the class attribute are parameters.\<close>
  "parse_feature langs me strip_colon txt l fn =
     (case bindE (Parser langs me strip_colon l None) (parse langs txt fn) of
        Inl e \<Rightarrow> Inl (with_filename fn e)
      | Inr r \<Rightarrow> Inr r)"

subsection \<open>An English keyword table\<close>

definition en_keywords :: keyword_table where
  \<comment> \<open>Modelled from the spec: the entry "en" of \<^verbatim>\<open>i18n.languages\<close>, which is not among the
      sources at hand, with the keywords the spec's examples and glossary use. The bullet
      \<^verbatim>\<open>*\<close> is listed first under every step concept; step keywords end with a space.\<close>
  "en_keywords k =
     (case k of
        K_feature \<Rightarrow> [''Feature'']
      | K_rule \<Rightarrow> [''Rule'']
      | K_background \<Rightarrow> [''Background'']
      | K_scenario \<Rightarrow> [''Example'', ''Scenario'']
      | K_scenario_outline \<Rightarrow> [''Scenario Outline'', ''Scenario Template'']
      | K_examples \<Rightarrow> [''Examples'', ''Scenarios'']
      | K_given \<Rightarrow> [''* '', ''Given '']
      | K_when \<Rightarrow> [''* '', ''When '']
      | K_then \<Rightarrow> [''* '', ''Then '']
      | K_and \<Rightarrow> [''* '', ''And '']
      | K_but \<Rightarrow> [''* '', ''But ''])"

definition en_only :: languages where
  "en_only = [''en'' \<mapsto> en_keywords]"

subsection \<open>Definitions used to state the properties\<close>

definition tag_words :: "string \<Rightarrow> string list" where
  \<comment> \<open>The words of a tag line before the first word that opens a comment.\<close>
  "tag_words ln = takeWhile (\<lambda>w. \<not> startswith w ''#'') (split ln)"



definition en_parser :: parser where
  \<comment> \<open>The parser object for the English table as \<^verbatim>\<open>reset\<close> leaves it.\<close>
  "en_parser =
     \<lparr>self = 0, STRIP_STEPS_WITH_TRAILING_COLON = False, language = Some ''en'',
      variant = ''feature'', kwtable = Some en_keywords, state = INITIAL, line = 0,
      last_step_type = None, multiline_start = None, multiline_leading = None,
      multiline_terminator = None, filename = None, scenario_container = NoContainer,
      feature = None, rule = NoRule, statement = NoStatement, tags = [], lines = [],
      table = None, examples = False\<rparr>"

definition language_directive :: "string \<Rightarrow> string option" where
  \<comment> \<open>The language tag that \<^verbatim>\<open>action\<close> reads from a comment line, if the comment is a
      language directive.\<close>
  "language_directive ln =
     (if startswith (strip ln) ''#'' then
        (let comment = strip (tl (strip ln))
         in if startswith (lower (lstrip comment)) ''language:''
            then Some (strip (drop 9 comment)) else None)
      else None)"

definition is_feature_line :: "languages \<Rightarrow> string \<Rightarrow> bool" where
  \<comment> \<open>The line is not a comment and begins with \<^verbatim>\<open><alias>:\<close> for a feature alias of some
      language of the keyword table.\<close>
  "is_feature_line langs ln =
     (\<not> startswith (strip ln) ''#'' \<and>
      (\<exists>kws\<in>ran langs. find (\<lambda>alias. startswith (strip ln) (alias @ '':'')) (kws K_feature) \<noteq> None))"

definition blank_or_comment :: "languages \<Rightarrow> string \<Rightarrow> bool" where
  \<comment> \<open>A blank line, or a comment line; a comment that is a language directive names a
      language of the keyword table.\<close>
  "blank_or_comment langs ln =
     (strip ln = [] \<or>
      (startswith (strip ln) ''#'' \<and>
       (case language_directive ln of None \<Rightarrow> True | Some t \<Rightarrow> langs t \<noteq> None)))"

definition initial_without_feature :: "languages \<Rightarrow> parser \<Rightarrow> bool" where
  \<comment> \<open>The parser is in state INITIAL, has built no Feature and has no open table, and its
      keywords are those of a language of the table.\<close>
  "initial_without_feature langs s =
     (state s = INITIAL \<and> feature s = None \<and> table s = None \<and>
      (\<exists>kws. kwtable s = Some kws \<and> kws \<in> ran langs))"

definition feature_A :: feature_node where
  \<comment> \<open>The Feature of the text \<^verbatim>\<open>Feature: A / Scenario: S / Given x\<close>, as the parser holds it
      after these three lines.\<close>
  "feature_A =
     \<lparr>feat_filename = None, feat_line = 1, feat_keyword = ''Feature'', feat_name = ''A'',
      feat_tags = [], feat_language = ''en'', feat_description = [],
      feat_body =
        \<lparr>cb_background = None,
         cb_scenarios =
           [\<lparr>sc_filename = None, sc_line = 2, sc_keyword = ''Scenario'', sc_name = ''S'',
             sc_tags = [], sc_description = [],
             sc_steps = [Step None 3 ''Given'' Given ''x''],
             sc_is_outline = False, sc_examples = []\<rparr>]\<rparr>,
      feat_rules = [], feat_parser = None\<rparr>"

definition parser_in_steps :: parser where
  \<comment> \<open>The English parser after the lines \<^verbatim>\<open>Feature: A / Scenario: S / Given x\<close>.\<close>
  "parser_in_steps =
     en_parser\<lparr>state := STEPS, line := 3, last_step_type := Some Given,
       scenario_container := TheFeature, feature := Some feature_A,
       statement := ScenarioStatement\<rparr>"

definition parser_in_background :: parser where
  \<comment> \<open>The English parser after the lines \<^verbatim>\<open>Feature: F / Background: A\<close>.\<close>
  "parser_in_background =
     en_parser\<lparr>state := BACKGROUND, line := 2, scenario_container := TheFeature,
       feature := Some
         \<lparr>feat_filename = None, feat_line = 1, feat_keyword = ''Feature'', feat_name = ''F'',
          feat_tags = [], feat_language = ''en'', feat_description = [],
          feat_body =
            \<lparr>cb_background =
               Some \<lparr>bg_filename = None, bg_line = 2, bg_keyword = ''Background'',
                     bg_name = ''A'', bg_description = [], bg_steps = []\<rparr>,
             cb_scenarios = []\<rparr>,
          feat_rules = [], feat_parser = None\<rparr>,
       statement := BackgroundStatement\<rparr>"

definition parser_with_background_steps :: parser where
  \<comment> \<open>A parser object in state FEATURE whose Feature has a Background with a step.\<close>
  "parser_with_background_steps =
     en_parser\<lparr>state := FEATURE, line := 4, scenario_container := TheFeature,
       feature := Some
         \<lparr>feat_filename = None, feat_line = 1, feat_keyword = ''Feature'', feat_name = ''F'',
          feat_tags = [], feat_language = ''en'', feat_description = [],
          feat_body =
            \<lparr>cb_background =
               Some \<lparr>bg_filename = None, bg_line = 2, bg_keyword = ''Background'',
                     bg_name = ''A'', bg_description = [],
                     bg_steps = [Step None 3 ''Given'' Given ''x'']\<rparr>,
             cb_scenarios = []\<rparr>,
          feat_rules = [], feat_parser = None\<rparr>\<rparr>"





definition rectangular :: "table \<Rightarrow> bool" where
  \<comment> \<open>Every row has exactly as many cells as there are headings.\<close>
  "rectangular t = (\<forall>r\<in>set (table_rows t). length (row_cells r) = length (table_headings t))"

definition table_ok :: "table option \<Rightarrow> bool" where
  "table_ok t = (case t of None \<Rightarrow> True | Some tb \<Rightarrow> rectangular tb)"

definition steps_ok :: "step list \<Rightarrow> bool" where
  "steps_ok xs = (\<forall>st\<in>set xs. table_ok (step_table st))"

definition scenario_ok :: "scenario \<Rightarrow> bool" where
  "scenario_ok sc = (steps_ok (sc_steps sc) \<and> (\<forall>e\<in>set (sc_examples sc). table_ok (ex_table e)))"

definition body_ok :: "container_body \<Rightarrow> bool" where
  "body_ok b =
     ((case cb_background b of None \<Rightarrow> True | Some bg \<Rightarrow> steps_ok (bg_steps bg)) \<and>
      (\<forall>sc\<in>set (cb_scenarios b). scenario_ok sc))"

definition feature_ok :: "feature_node \<Rightarrow> bool" where
  \<comment> \<open>Every table of the Feature is rectangular: the data tables of the steps of its
      Backgrounds and scenarios, and the tables of the Examples of its outlines, in the
      Feature itself and in its Rules.\<close>
  "feature_ok f = (body_ok (feat_body f) \<and> (\<forall>r\<in>set (feat_rules f). body_ok (rule_body r)))"

fun stmt_ok :: "stmt \<Rightarrow> bool" where
  "stmt_ok (SRule r) = body_ok (rule_body r)"
| "stmt_ok (SBackground b) = steps_ok (bg_steps b)"
| "stmt_ok (SScenario sc) = scenario_ok sc"

definition ast_ok :: "parser \<Rightarrow> bool" where
  \<comment> \<open>Every table of the nodes the parser holds is rectangular.\<close>
  "ast_ok s =
     ((case feature s of None \<Rightarrow> True | Some f \<Rightarrow> feature_ok f) \<and>
      (case rule s of DetachedRule r \<Rightarrow> body_ok (rule_body r) | _ \<Rightarrow> True) \<and>
      (case statement s of DetachedScenario sc \<Rightarrow> scenario_ok sc | _ \<Rightarrow> True))"

definition parser_ok :: "ref \<Rightarrow> parser \<Rightarrow> bool" where
  \<comment> \<open>The parser object is the one with the given identity, and its open table and the
      tables of its nodes are rectangular.\<close>
  "parser_ok me s = (self s = me \<and> table_ok (table s) \<and> ast_ok s)"

definition parser_in_table :: parser where
  \<comment> \<open>The English parser after the lines \<^verbatim>\<open>Feature: A / Scenario: S / Given x\<close> and the table
      row \<^verbatim>\<open>| n |\<close>.\<close>
  "parser_in_table = parser_in_steps\<lparr>state := TABLE, line := 4, table := Some (Table [''n''] 4)\<rparr>"

definition outline_text :: string where
  \<comment> \<open>The text of the spec's example of an outline with Examples.\<close>
  "outline_text =
     ''Feature: F\<newline> Scenario Outline: S\<newline>  Given <n>\<newline>  Examples:\<newline>   | n |\<newline>   | 1 |\<newline>   | 2 |\<newline>''"

definition outline_feature :: feature_node where
  \<comment> \<open>The Feature that the English parser with identity 0 returns for \<open>outline_text\<close>.\<close>
  "outline_feature =
     \<lparr>feat_filename = None, feat_line = 1, feat_keyword = ''Feature'', feat_name = ''F'',
      feat_tags = [], feat_language = ''en'', feat_description = [],
      feat_body =
        \<lparr>cb_background = None,
         cb_scenarios =
           [\<lparr>sc_filename = None, sc_line = 2, sc_keyword = ''Scenario Outline'', sc_name = ''S'',
             sc_tags = [], sc_description = [],
             sc_steps = [Step None 3 ''Given'' Given ''<n>''],
             sc_is_outline = True,
             sc_examples =
               [\<lparr>ex_filename = None, ex_line = 4, ex_keyword = ''Examples'', ex_name = [],
                 ex_tags = [],
                 ex_table =
                   Some \<lparr>table_headings = [''n''], table_line = 5,
                         table_rows = [\<lparr>row_cells = [''1''], row_line = 6\<rparr>,
                                       \<lparr>row_cells = [''2''], row_line = 7\<rparr>]\<rparr>\<rparr>]\<rparr>]\<rparr>,
      feat_rules = [], feat_parser = Some 0\<rparr>"

section \<open>Properties\<close>

lemma bindE_Inl [simp]: "bindE (Inl e) f = Inl e"
  by (simp add: bindE_def)

lemma bindE_Inr [simp]: "bindE (Inr x) f = f x"
  by (simp add: bindE_def)

subsection \<open>Tag lines\<close>

lemma at_word_not_comment: "startswith w ''@'' \<Longrightarrow> \<not> startswith w ''#''"
  by (cases w) auto

lemma tags_of_words_char:
  "tags_of_words ws ln s =
     (case find (\<lambda>w. \<not> startswith w ''@'') (takeWhile (\<lambda>w. \<not> startswith w ''#'') ws) of
        None \<Rightarrow> Inr (map (\<lambda>w. \<lparr>tag_name = tl w, tag_line = line s\<rparr>)
                    (takeWhile (\<lambda>w. \<not> startswith w ''#'') ws))
      | Some w \<Rightarrow> Inl (ParserError (''tag: '' @ w @ '' (line: '' @ ln @ '')'')
                        (line s) (filename s) None None))"
proof (induction ws)
  case Nil
  then show ?case by simp
next
  case (Cons w ws)
  show ?case
  proof (cases "startswith w ''@''")
    case True
    then have nc: "\<not> startswith w ''#''" by (rule at_word_not_comment)
    from True nc Cons.IH show ?thesis
      by (simp split: option.splits)
  next
    case False
    then show ?thesis by simp
  qed
qed

lemma split_example:
  "split ''@a @b  @c  # comment'' = [''@a'', ''@b'', ''@c'', ''#'', ''comment'']"
  by (simp add: split_def isspace_def)

text \<open>
  C6: \<^verbatim>\<open>parse_tags\<close> on a line that begins with \<^verbatim>\<open>@\<close> splits the line on whitespace and
  goes through the words in order. A word that starts with \<^verbatim>\<open>#\<close> ends the parsing (the
  words from there on are a comment); if one of the words before it does not start with
  \<^verbatim>\<open>@\<close>, the first such word raises the ParserError for a bad tag; otherwise every word
  before the comment gives one tag, the word without its \<^verbatim>\<open>@\<close>, in the order of the line
  and with duplicates kept.
\<close>

theorem parse_tags_words:
  assumes "startswith ln ''@''"
  shows "parse_tags ln s =
     (case find (\<lambda>w. \<not> startswith w ''@'') (tag_words ln) of
        None \<Rightarrow> Inr (map (\<lambda>w. \<lparr>tag_name = tl w, tag_line = line s\<rparr>) (tag_words ln))
      | Some w \<Rightarrow> Inl (ParserError (''tag: '' @ w @ '' (line: '' @ ln @ '')'')
                        (line s) (filename s) None None))"
  unfolding parse_tags_def tag_words_def using assms by (simp add: tags_of_words_char)

text \<open>The line \<^verbatim>\<open>@a @b  @c  # comment\<close> yields exactly the tags a, b, c.\<close>

theorem parse_tags_words_witness:
  "\<forall>s. startswith ''@a @b  @c  # comment'' ''@'' \<and>
       parse_tags ''@a @b  @c  # comment'' s =
         Inr [\<lparr>tag_name = ''a'', tag_line = line s\<rparr>, \<lparr>tag_name = ''b'', tag_line = line s\<rparr>,
              \<lparr>tag_name = ''c'', tag_line = line s\<rparr>]"
proof
  fix s
  have h: "startswith ''@a @b  @c  # comment'' ''@''" by simp
  show "startswith ''@a @b  @c  # comment'' ''@'' \<and>
       parse_tags ''@a @b  @c  # comment'' s =
         Inr [\<lparr>tag_name = ''a'', tag_line = line s\<rparr>, \<lparr>tag_name = ''b'', tag_line = line s\<rparr>,
              \<lparr>tag_name = ''c'', tag_line = line s\<rparr>]"
    using parse_tags_words [OF h, of s] by (simp add: tag_words_def split_example)
qed

subsection \<open>Steps\<close>

lemma en_parser_reset:
  "bindE (Parser en_only 0 False None None) (reset en_only None) = Inr en_parser"
  by (simp add: Parser_def reset_def en_only_def lookup_language_def language_or_default_def
      truthy_def DEFAULT_LANGUAGE_def en_parser_def)

lemma find_step_keyword_type:
  assumes "find_step_keyword kws ln = Some (ty, kw)"
  shows "ty \<in> {Given, When, Then, And, But}"
proof -
  from assms have "(ty, kw) \<in> set (step_candidates kws)"
    unfolding find_step_keyword_def by (auto simp: find_Some_iff in_set_conv_nth)
  then show ?thesis
    by (auto simp: step_candidates_def)
qed


lemma find_step_keyword_en_star: "find_step_keyword en_keywords ''* x'' = Some (Given, ''* '')"
  by code_simp



text \<open>
  C5, as the code has it: a step line that matches the bullet \<^verbatim>\<open>*\<close> inherits the last
  semantic type of the block when one is known. When none is known, the step takes the
  semantic type under which the bullet was matched: for \<^verbatim>\<open>given\<close>, \<^verbatim>\<open>when\<close> or \<^verbatim>\<open>then\<close>
  that type, which becomes the last type of the block, and parsing does not fail; the
  sentinel type of the registry is not assigned.
\<close>

theorem generic_step_type:
  assumes "kwtable s = Some kws"
    and "find_step_keyword kws ln = Some (ty, kw)"
    and "startswith kw ''*''"
  shows "(case last_step_type s of
            Some t \<Rightarrow>
              parse_step ln s =
                Inr (Some (Step (filename s) (line s) (rstrip kw) t
                             (strip (drop (length kw) ln))), s)
          | None \<Rightarrow>
              ty = And \<or> ty = But \<or>
              (ty \<in> {Given, When, Then} \<and>
               parse_step ln s =
                 Inr (Some (Step (filename s) (line s) (rstrip kw) ty
                              (strip (drop (length kw) ln))),
                      s\<lparr>last_step_type := Some ty\<rparr>)))"
proof (cases "last_step_type s")
  case None
  from find_step_keyword_type [OF assms(2)] have "ty \<in> {Given, When, Then, And, But}" .
  with None assms show ?thesis
    by (auto simp: parse_step_def Let_def)
next
  case (Some t)
  with assms show ?thesis
    by (auto simp: parse_step_def Let_def)
qed

theorem generic_step_type_witness:
  "kwtable en_parser = Some en_keywords \<and>
   find_step_keyword en_keywords ''* x'' = Some (Given, ''* '') \<and>
   startswith ''* '' ''*'' \<and>
   parse_step ''* x'' en_parser =
     Inr (Some (Step None 0 ''*'' Given ''x''), en_parser\<lparr>last_step_type := Some Given\<rparr>) \<and>
   parse_step ''* x'' (en_parser\<lparr>last_step_type := Some Then\<rparr>) =
     Inr (Some (Step None 0 ''*'' Then ''x''), en_parser\<lparr>last_step_type := Some Then\<rparr>)"
proof -
  have k: "kwtable (en_parser\<lparr>last_step_type := Some Then\<rparr>) = Some en_keywords"
    by (simp add: en_parser_def)
  have k0: "kwtable en_parser = Some en_keywords"
    by (simp add: en_parser_def)
  have st: "startswith ''* '' ''*''" by simp
  have a: "parse_step ''* x'' (en_parser\<lparr>last_step_type := Some Then\<rparr>) =
      Inr (Some (Step (filename (en_parser\<lparr>last_step_type := Some Then\<rparr>))
                   (line (en_parser\<lparr>last_step_type := Some Then\<rparr>)) ''*'' Then ''x''),
           en_parser\<lparr>last_step_type := Some Then\<rparr>)"
    using generic_step_type [OF k find_step_keyword_en_star st]
    by (simp add: rstrip_def strip_def lstrip_def isspace_def)
  have l0: "last_step_type en_parser = None" by (simp add: en_parser_def)
  have b: "parse_step ''* x'' en_parser =
      Inr (Some (Step (filename en_parser) (line en_parser) ''*'' Given ''x''),
           en_parser\<lparr>last_step_type := Some Given\<rparr>)"
    using generic_step_type [OF k0 find_step_keyword_en_star st]
    by (simp add: l0 rstrip_def strip_def lstrip_def isspace_def)
  show ?thesis
    using a b by (simp add: k0 find_step_keyword_en_star en_parser_def)
qed

text \<open>
  The claim C5 as stated fails: on the first step of a scenario, with no last type known,
  the bullet gives a step of type \<^verbatim>\<open>given\<close>, not the sentinel.
\<close>

theorem generic_step_sentinel_counterexample:
  "parse_feature en_only 0 False ''Feature: F\<newline>Scenario: S\<newline>* x\<newline>'' None None =
     Inr (Some
       \<lparr>feat_filename = None, feat_line = 1, feat_keyword = ''Feature'',
          feat_name = ''F'', feat_tags = [], feat_language = ''en'',
          feat_description = [],
          feat_body =
            \<lparr>cb_background = None,
               cb_scenarios =
                 [\<lparr>sc_filename = None, sc_line = 2,
                     sc_keyword = ''Scenario'', sc_name = ''S'',
                     sc_tags = [], sc_description = [],
                     sc_steps =
                       [\<lparr>step_filename = None, step_line = 3,
                           step_keyword = ''*'', step_step_type = Given,
                           step_name = ''x'', step_text = None,
                           step_table = None\<rparr>],
                     sc_is_outline = False, sc_examples = []\<rparr>]\<rparr>,
          feat_rules = [], feat_parser = Some 0\<rparr>)"
  by code_simp

subsection \<open>Whitespace\<close>

lemma lstrip_Nil [simp]: "lstrip [] = []"
  by (simp add: lstrip_def)

lemma lstrip_Cons [simp]: "lstrip (c # cs) = (if isspace c then lstrip cs else c # cs)"
  by (simp add: lstrip_def)


lemma rstrip_append_nonspace:
  assumes "t \<noteq> []" and "\<not> isspace (last t)"
  shows "rstrip (p @ t) = p @ t"
proof -
  from assms(1) obtain u c where t: "t = u @ [c]"
    by (metis append_butlast_last_id)
  with assms(2) have "\<not> isspace c" by simp
  then show ?thesis by (simp add: rstrip_def t)
qed

lemma rstrip_nonspace: "t \<noteq> [] \<Longrightarrow> \<not> isspace (last t) \<Longrightarrow> rstrip t = t"
  using rstrip_append_nonspace [of t "[]"] by simp

lemma strip_no_space:
  assumes "t \<noteq> []" and "\<forall>c\<in>set t. \<not> isspace c"
  shows "strip t = t"
proof -
  from assms have l: "\<not> isspace (last t)" by simp
  from assms obtain c cs where t: "t = c # cs" by (cases t) auto
  with assms(2) have "lstrip t = t" by simp
  with assms(1) l show ?thesis by (simp add: strip_def rstrip_nonspace)
qed

lemma isspace_simps [simp]:
  "isspace CHR '' ''" "\<not> isspace CHR ''#''" "\<not> isspace CHR ''l''" "\<not> isspace CHR '':''"
  by (simp_all add: isspace_def)

lemma lower_append: "lower (a @ b) = lower a @ lower b"
  by (simp add: lower_def)

lemma lower_language: "lower ''language:'' = ''language:''"
  by code_simp

lemma startswith_append [simp]: "startswith (p @ s) p"
  by (induction p) auto

subsection \<open>Languages\<close>

lemma language_directive_comment:
  assumes "t \<noteq> []" and "\<forall>c\<in>set t. \<not> isspace c"
  shows "language_directive (''# language: '' @ t) = Some t"
proof -
  from assms have l: "\<not> isspace (last t)" by simp
  from assms obtain c cs where t: "t = c # cs" by (cases t) auto
  with assms(2) have c: "\<not> isspace c" by simp
  have s1: "strip (''# language: '' @ t) = ''# language: '' @ t"
    using rstrip_append_nonspace [OF assms(1) l, of "''# language: ''"]
    by (simp add: strip_def)
  have s2: "strip ('' language: '' @ t) = ''language: '' @ t"
    using rstrip_append_nonspace [OF assms(1) l, of "''language: ''"]
    by (simp add: strip_def)
  have s3: "strip ('' '' @ t) = t"
    using rstrip_nonspace [OF assms(1) l] c by (simp add: strip_def t)
  have "''language: '' @ t = ''language:'' @ ('' '' @ t)" by simp
  then have "lower (''language: '' @ t) = lower ''language:'' @ lower ('' '' @ t)"
    by (simp only: lower_append)
  then have s4: "startswith (lower (''language: '' @ t)) ''language:''"
    by (simp only: lower_language startswith_append)
  show ?thesis
    using s1 s2 s3 s4 by (simp add: language_directive_def Let_def)
qed

lemma language_directive_is_comment:
  "language_directive ln = Some t \<Longrightarrow> startswith (strip ln) ''#''"
  by (simp add: language_directive_def split: if_splits)

lemma action_language_directive:
  assumes "state s = INITIAL" and "tags s = []" and "variant s = ''feature''"
    and "language_directive ln = Some t"
  shows "action langs ln s =
     (case langs t of
        None \<Rightarrow> Inl (LanguageNotSupported t)
      | Some kws \<Rightarrow> Inr (s\<lparr>language := Some t, kwtable := Some kws\<rparr>))"
  using assms
  by (auto simp: action_def language_directive_def Let_def lookup_language_def
      split: if_splits option.splits)

lemma run_lines_directive_unknown:
  assumes "state s = INITIAL" and "tags s = []" and "variant s = ''feature''"
    and "language_directive ln = Some t" and "langs t = None"
  shows "run_lines langs (ln # rest) s = Inl (LanguageNotSupported t)"
proof -
  have ne: "strip ln \<noteq> []"
    using language_directive_is_comment [OF assms(4)] by auto
  have "action langs ln (s\<lparr>line := line s + 1\<rparr>) = Inl (LanguageNotSupported t)"
    using assms action_language_directive [where s = "s\<lparr>line := line s + 1\<rparr>" and ln = ln and t = t and langs = langs]
    by simp
  with ne show ?thesis by (simp add: Let_def)
qed

lemma Parser_Inr:
  assumes "Parser langs me sc l v = Inr p"
  shows "language p = l \<and> variant p = (if truthy v then the v else ''feature'') \<and> self p = me
     \<and> langs (language_or_default l) \<noteq> None"
  using assms
  by (auto simp: Parser_def lookup_language_def bindE_def split: option.splits if_splits)

lemma reset_Inr:
  assumes "langs (language_or_default (language p)) = Some kws"
  shows "reset langs fn p =
     Inr (p\<lparr>language := Some (language_or_default (language p)), kwtable := Some kws,
            state := INITIAL, line := 0, last_step_type := None, multiline_start := None,
            multiline_leading := None, multiline_terminator := None, filename := fn,
            scenario_container := NoContainer, feature := None, rule := NoRule,
            statement := NoStatement, tags := [], lines := [], table := None,
            examples := False\<rparr>)"
  using assms by (simp add: reset_def lookup_language_def Let_def)

text \<open>
  C7: a language tag that is not a key of the keyword table makes parsing fail with
  LanguageNotSupported, the failure of the lookup in the keyword table, whether the tag is
  given to the constructor of the parser or selected by a comment \<^verbatim>\<open># language: <tag>\<close> on
  the first line of the text. A tag is a non-empty word without whitespace.
\<close>

theorem unknown_language_fails:
  assumes "langs t = None" and "t \<noteq> []" and "\<forall>c\<in>set t. \<not> isspace c"
  shows "Parser langs me sc (Some t) v = Inl (LanguageNotSupported t) \<and>
     parse_feature langs me sc txt (Some t) fn = Inl (LanguageNotSupported t) \<and>
     ((\<exists>p. Parser langs me sc l None = Inr p) \<longrightarrow>
      (\<exists>rest. splitlines txt = (''# language: '' @ t) # rest) \<longrightarrow>
      parse_feature langs me sc txt l fn = Inl (LanguageNotSupported t))"
proof (intro conjI impI)
  show c: "Parser langs me sc (Some t) v = Inl (LanguageNotSupported t)"
    using assms(1,2)
    by (simp add: Parser_def language_or_default_def truthy_def lookup_language_def)
  show "parse_feature langs me sc txt (Some t) fn = Inl (LanguageNotSupported t)"
    using assms(1,2)
    by (simp add: parse_feature_def Parser_def language_or_default_def truthy_def
        lookup_language_def)
next
  assume "\<exists>p. Parser langs me sc l None = Inr p"
    and "\<exists>rest. splitlines txt = (''# language: '' @ t) # rest"
  then obtain p rest where p: "Parser langs me sc l None = Inr p"
    and ls: "splitlines txt = (''# language: '' @ t) # rest"
    by blast
  from Parser_Inr [OF p] obtain kws where
    kws: "langs (language_or_default (language p)) = Some kws" and v: "variant p = ''feature''"
    by (auto simp: truthy_def)
  define s0 where "s0 = p\<lparr>language := Some (language_or_default (language p)), kwtable := Some kws,
            state := INITIAL, line := 0, last_step_type := None, multiline_start := None,
            multiline_leading := None, multiline_terminator := None, filename := fn,
            scenario_container := NoContainer, feature := None, rule := NoRule,
            statement := NoStatement, tags := [], lines := [], table := None,
            examples := False\<rparr>"
  have r: "reset langs fn p = Inr s0"
    unfolding s0_def using kws by (rule reset_Inr)
  have d: "language_directive (''# language: '' @ t) = Some t"
    using assms(2,3) by (rule language_directive_comment)
  have "run_lines langs (splitlines txt) s0 = Inl (LanguageNotSupported t)"
    unfolding ls
    by (rule run_lines_directive_unknown [where langs = langs, OF _ _ _ d assms(1)])
      (simp_all add: s0_def v)
  moreover have "state s0 \<noteq> STEPS" by (simp add: s0_def)
  ultimately have "parse langs txt fn p = Inl (LanguageNotSupported t)"
    by (simp add: parse_def parse_loop_def r Let_def)
  then show "parse_feature langs me sc txt l fn = Inl (LanguageNotSupported t)"
    by (simp add: parse_feature_def p)
qed

theorem unknown_language_fails_witness:
  "en_only ''xx'' = None \<and> ''xx'' \<noteq> [] \<and> \<not> isspace CHR ''x'' \<and>
   Parser en_only 0 False (Some ''xx'') None = Inl (LanguageNotSupported ''xx'') \<and>
   Parser en_only 0 False None None = Inr (en_parser\<lparr>language := None, kwtable := None\<rparr>) \<and>
   splitlines ''# language: xx\<newline>Feature: A\<newline>'' = [''# language: xx'', ''Feature: A''] \<and>
   parse_feature en_only 0 False ''# language: xx\<newline>Feature: A\<newline>'' None None =
     Inl (LanguageNotSupported ''xx'')"
proof -
  have a: "en_only ''xx'' = None" by (simp add: en_only_def)
  have b: "''xx'' \<noteq> []" by simp
  have c: "\<forall>c\<in>set ''xx''. \<not> isspace c" by (simp add: isspace_def)
  have p: "Parser en_only 0 False None None = Inr (en_parser\<lparr>language := None, kwtable := None\<rparr>)"
    by (simp add: Parser_def en_only_def lookup_language_def language_or_default_def
        truthy_def DEFAULT_LANGUAGE_def en_parser_def)
  have ls: "splitlines ''# language: xx\<newline>Feature: A\<newline>'' = [''# language: xx'', ''Feature: A'']"
    by code_simp
  from unknown_language_fails [of en_only "''xx''" 0 False None
      "''# language: xx\<newline>Feature: A\<newline>''" None None, OF a b c]
  show ?thesis
    using a c p ls by simp
qed

subsection \<open>Texts without a Feature\<close>

lemma startswith_Nil [simp]: "startswith [] p = (p = [])"
  by (cases p) auto

lemma find_alias_blank [simp]: "find (\<lambda>alias. startswith [] (alias @ '':'')) xs = None"
  by (induction xs) auto

lemma rejected_not_Inr [simp]: "bindE m (\<lambda>(reason, s2). Inl (g reason s2)) \<noteq> Inr y"
  by (cases m) (auto split: prod.splits)

lemma action_initial_without_feature:
  assumes "initial_without_feature langs s" and "\<not> is_feature_line langs ln"
    and "action langs ln s = Inr s'"
  shows "initial_without_feature langs s'"
proof (cases "startswith (strip ln) ''#''")
  case True
  with assms(1,3) show ?thesis
    by (auto simp: action_def initial_without_feature_def Let_def lookup_language_def ran_def
        split: if_splits option.splits)
next
  case False
  from assms(1) obtain kws where k: "kwtable s = Some kws" "kws \<in> ran langs"
    and st: "state s = INITIAL"
    by (auto simp: initial_without_feature_def)
  from False assms(2) k(2)
  have nf: "find (\<lambda>alias. startswith (strip ln) (alias @ '':'')) (kws K_feature) = None"
    by (auto simp: is_feature_line_def)
  show ?thesis
  proof (cases "startswith (strip ln) ''@''")
    case True
    with False assms(1,3) st show ?thesis
      by (cases "parse_tags (strip ln) s")
        (auto simp: action_def dispatch_def action_initial_def Let_def
          initial_without_feature_def)
  next
    case nt: False
    with False assms(3) st k nf show ?thesis
      by (simp add: action_def dispatch_def action_initial_def Let_def match_keyword_def
          truthy_def)
  qed
qed

lemma run_lines_initial_without_feature:
  assumes "initial_without_feature langs s" and "\<forall>ln\<in>set lns. \<not> is_feature_line langs ln"
    and "run_lines langs lns s = Inr s'"
  shows "initial_without_feature langs s'"
  using assms
proof (induction lns arbitrary: s)
  case Nil
  then show ?case by simp
next
  case (Cons ln lns)
  let ?s1 = "s\<lparr>line := line s + 1\<rparr>"
  from Cons.prems(1) have i1: "initial_without_feature langs ?s1"
    by (simp add: initial_without_feature_def)
  show ?case
  proof (cases "strip ln = [] \<and> state ?s1 \<noteq> MULTILINE_TEXT")
    case True
    with Cons.prems(3) have "run_lines langs lns ?s1 = Inr s'" by (simp add: Let_def)
    with Cons.IH [OF i1] Cons.prems(2) show ?thesis by simp
  next
    case False
    with Cons.prems(3) obtain s2 where a: "action langs ln ?s1 = Inr s2"
      and r: "run_lines langs lns s2 = Inr s'"
      by (cases "action langs ln ?s1") (auto simp: Let_def)
    from Cons.prems(2) have "\<not> is_feature_line langs ln" by simp
    from action_initial_without_feature [OF i1 this a]
    have "initial_without_feature langs s2" .
    from Cons.IH [OF this _ r] Cons.prems(2) show ?thesis by simp
  qed
qed

lemma comment_accepted:
  assumes "startswith (strip ln) ''#''" and "state s \<noteq> MULTILINE_TEXT"
    and "case language_directive ln of None \<Rightarrow> True | Some t \<Rightarrow> langs t \<noteq> None"
  shows "\<exists>s'. action langs ln s = Inr s' \<and> state s' = state s"
  using assms
  by (auto simp: action_def language_directive_def Let_def lookup_language_def
      split: option.splits)

lemma run_lines_blank_or_comment:
  assumes "state s = INITIAL" and "\<forall>ln\<in>set lns. blank_or_comment langs ln"
  shows "\<exists>s'. run_lines langs lns s = Inr s'"
  using assms
proof (induction lns arbitrary: s)
  case Nil
  then show ?case by simp
next
  case (Cons ln lns)
  let ?s1 = "s\<lparr>line := line s + 1\<rparr>"
  from Cons.prems(1) have st: "state ?s1 = INITIAL" by simp
  show ?case
  proof (cases "strip ln = []")
    case True
    with st Cons.IH [OF st] Cons.prems(2) show ?thesis by (simp add: Let_def)
  next
    case False
    with Cons.prems(2) have c: "startswith (strip ln) ''#''"
      and d: "case language_directive ln of None \<Rightarrow> True | Some t \<Rightarrow> langs t \<noteq> None"
      by (auto simp: blank_or_comment_def)
    from st have "state ?s1 \<noteq> MULTILINE_TEXT" by simp
    from comment_accepted [OF c this d] obtain s2 where
      a: "action langs ln ?s1 = Inr s2" and s2: "state s2 = INITIAL"
      using st by auto
    from Cons.IH [OF s2] Cons.prems(2) obtain s' where "run_lines langs lns s2 = Inr s'"
      by auto
    with a False show ?thesis by (simp add: Let_def)
  qed
qed

lemma find_never [simp]: "find (\<lambda>x. False) xs = None"
  by (induction xs) auto

lemma blank_or_comment_no_feature:
  "blank_or_comment langs ln \<Longrightarrow> \<not> is_feature_line langs ln"
  by (auto simp: blank_or_comment_def is_feature_line_def)

lemma parse_without_feature:
  assumes "\<forall>ln\<in>set (splitlines txt). \<not> is_feature_line langs ln"
    and "parse langs txt fn p = Inr r"
  shows "r = None"
proof -
  from assms(2) obtain s0 where r0: "reset langs fn p = Inr s0"
    by (cases "reset langs fn p") (auto simp: parse_def parse_loop_def)
  then have i0: "initial_without_feature langs s0"
    by (auto simp: reset_def Let_def lookup_language_def initial_without_feature_def ran_def
        split: option.splits)
  then have ns: "state s0 \<noteq> STEPS" by (simp add: initial_without_feature_def)
  from assms(2) r0 ns obtain s3 where r3: "run_lines langs (splitlines txt) s0 = Inr s3"
    by (cases "run_lines langs (splitlines txt) s0") (auto simp: parse_def parse_loop_def)
  from run_lines_initial_without_feature [OF i0 assms(1) r3]
  have "feature s3 = None" "table s3 = None"
    by (simp_all add: initial_without_feature_def)
  with assms(2) r0 ns r3 show ?thesis
    by (simp add: parse_def parse_loop_def)
qed

text \<open>
  C10: when no line of the text is a \<^verbatim>\<open>Feature:\<close> line and no line is rejected (the parse raises
  no error), the whole-file entry point returns None instead of a Feature. A text of blank
  lines and comment lines only, and so the empty text, is parsed without an error (a
  language directive among the comments has to name a language of the table, see C7) and
  gives None; the language given to the constructor is one of the table.
\<close>

theorem no_feature_returns_None:
  "((\<forall>ln\<in>set (splitlines txt). \<not> is_feature_line langs ln) \<longrightarrow>
      parse langs txt fn p = Inr r \<longrightarrow> r = None) \<and>
   ((\<forall>ln\<in>set (splitlines txt). blank_or_comment langs ln) \<longrightarrow>
      langs (language_or_default (language p)) \<noteq> None \<longrightarrow>
      parse langs txt fn p = Inr None)"
proof (intro conjI impI)
  assume "\<forall>ln\<in>set (splitlines txt). \<not> is_feature_line langs ln"
    and "parse langs txt fn p = Inr r"
  then show "r = None" by (rule parse_without_feature)
next
  assume bc: "\<forall>ln\<in>set (splitlines txt). blank_or_comment langs ln"
    and "langs (language_or_default (language p)) \<noteq> None"
  then obtain kws where "langs (language_or_default (language p)) = Some kws" by auto
  from reset_Inr [where langs = langs and p = p, OF this] obtain s0 where
    r0: "reset langs fn p = Inr s0" and st: "state s0 = INITIAL" and tb: "table s0 = None"
    by auto
  from run_lines_blank_or_comment [OF st bc] obtain s3 where
    r3: "run_lines langs (splitlines txt) s0 = Inr s3" by auto
  from r0 have i0: "initial_without_feature langs s0"
    by (auto simp: reset_def Let_def lookup_language_def initial_without_feature_def ran_def
        split: option.splits)
  from bc have nf: "\<forall>ln\<in>set (splitlines txt). \<not> is_feature_line langs ln"
    by (auto dest: blank_or_comment_no_feature)
  from run_lines_initial_without_feature [OF i0 nf r3]
  have "feature s3 = None" "table s3 = None"
    by (simp_all add: initial_without_feature_def)
  with r0 st r3 show "parse langs txt fn p = Inr None"
    by (simp add: parse_def parse_loop_def)
qed

theorem no_feature_returns_None_witness:
  "parse en_only [] None en_parser = Inr None \<and>
   splitlines ''# a comment\<newline>\<newline>  # more\<newline>'' = [''# a comment'', [], ''  # more''] \<and>
   blank_or_comment en_only ''# a comment'' \<and> blank_or_comment en_only [] \<and>
   blank_or_comment en_only ''  # more'' \<and>
   en_only (language_or_default (language en_parser)) = Some en_keywords \<and>
   parse en_only ''# a comment\<newline>\<newline>  # more\<newline>'' None en_parser = Inr None"
proof -
  have l0: "splitlines [] = []" by (simp add: splitlines_def)
  have l1: "splitlines ''# a comment\<newline>\<newline>  # more\<newline>'' = [''# a comment'', [], ''  # more'']"
    by code_simp
  have b: "blank_or_comment en_only ''# a comment''" "blank_or_comment en_only []"
    "blank_or_comment en_only ''  # more''"
    by (simp_all add: blank_or_comment_def language_directive_def strip_def isspace_def
        rstrip_def lower_def lower_char_def upper_letters_def lower_letters_def Let_def)
  have e: "en_only (language_or_default (language en_parser)) = Some en_keywords"
    by (simp add: en_only_def en_parser_def language_or_default_def truthy_def)
  from no_feature_returns_None [of "[]" en_only None en_parser None]
    no_feature_returns_None [of "''# a comment\<newline>\<newline>  # more\<newline>''" en_only None en_parser None]
  show ?thesis
    using l0 l1 b e by simp
qed

subsection \<open>A second Feature\<close>

lemma rstrip_prefix: "\<exists>z. x = rstrip x @ z"
proof -
  have "rev x = takeWhile isspace (rev x) @ dropWhile isspace (rev x)" by simp
  then have "x = rev (dropWhile isspace (rev x)) @ rev (takeWhile isspace (rev x))"
    by (metis rev_append rev_rev_ident)
  then show ?thesis unfolding rstrip_def by blast
qed

lemma strip_first_char:
  assumes "strip ln = c # r"
  shows "\<exists>z. lstrip ln = c # z"
proof -
  from rstrip_prefix [of "lstrip ln"] obtain z where "lstrip ln = strip ln @ z"
    by (auto simp: strip_def)
  with assms show ?thesis by simp
qed






lemma parser_in_steps_reached:
  "run_lines en_only [''Feature: A'', '' Scenario: S'', ''  Given x''] en_parser =
     Inr parser_in_steps"
  by (simp add: parser_in_steps_def feature_A_def en_parser_def Let_def action_def dispatch_def
      action_initial_def action_feature_def action_scenario_def match_keyword_def
      subaction_detect_taggable_statement_def build_feature_def build_scenario_statement_def
      parse_step_def find_step_keyword_def step_candidates_def kw_matches_def
      en_keywords_def truthy_def strip_def rstrip_def isspace_def lower_def lower_char_def
      upper_letters_def lower_letters_def statement_title_def language_or_default_def
      get_container_def upd_container_def Scenario_def empty_body_def append_step_def
      statement_steps_def get_statement_def upd_statement_def on_scenario_def upd_last_def
      Step_def)



subsection \<open>A second Background\<close>

lemma not_a_step_background_en:
  "find_step_keyword en_keywords (''Background:'' @ r) = None"
  by (simp add: find_step_keyword_def step_candidates_def en_keywords_def kw_matches_def
      lower_def lower_char_def upper_letters_def lower_letters_def)

lemma parse_step_background_line_en:
  assumes "kwtable s = Some en_keywords"
  shows "parse_step (''Background:'' @ r) s = Inr (None, s)"
  using assms not_a_step_background_en [of r] by (simp add: parse_step_def)

lemma not_taggable_background_en:
  assumes "kwtable s = Some en_keywords"
  shows "subaction_detect_taggable_statement langs (''Background:'' @ r) s = Inr (False, s)"
  using assms
  by (simp add: subaction_detect_taggable_statement_def match_keyword_def en_keywords_def
      truthy_def)

lemma oracle_background_line_en:
  assumes "kwtable s = Some en_keywords"
  shows "ask_parse_failure_oracle langs (''Background:'' @ r) s =
     Inr (Some (diagnose_background_usage_error s), s)"
  using assms
  by (simp add: ask_parse_failure_oracle_def match_keyword_def en_keywords_def truthy_def)

lemma match_background_en:
  assumes "kwtable s = Some en_keywords"
  shows "match_keyword langs K_background (''Background:'' @ r) s = Inr (Some ''Background'', s)"
  using assms by (simp add: match_keyword_def en_keywords_def)

lemma second_background_guard:
  assumes "tags s = []" and "container_background s = Some (own, inh)" and "own \<noteq> []"
  shows "build_background_statement kw ln s =
     Inl (ParserError ''Second Background (can have only one)'' (line s) (filename s)
            (Some ln) None)"
  using assms by (simp add: build_background_statement_def)

lemma background_line_in_steps:
  assumes "kwtable s = Some en_keywords"
    and "state s = STEPS \<or> state s = TAGGABLE_STATEMENT"
    and "strip ln = ''Background:'' @ r"
  shows "action langs ln s =
     Inl (ParserError (CHR 0x0A # ''Parser failure in state='' @ state_name (state s))
            (line s) (filename s) (Some (strip ln))
            (Some (diagnose_background_usage_error s)))"
proof -
  from assms(3) have nc: "\<not> startswith (strip ln) ''#''" by simp
  from assms(3) have "strip ln = CHR ''B'' # ''ackground:'' @ r" by simp
  from strip_first_char [OF this] obtain z where z: "lstrip ln = CHR ''B'' # z" by blast
  have nq: "\<not> startswith (lstrip ln) triple_double_quotes"
    "\<not> startswith (lstrip ln) triple_single_quotes"
    by (simp_all add: z triple_double_quotes_def triple_single_quotes_def)
  note facts = parse_step_background_line_en [OF assms(1), of r]
    not_taggable_background_en [OF assms(1), of langs r]
    oracle_background_line_en [OF assms(1), of langs r]
  have d: "dispatch langs ln s = Inr (False, s)"
    using assms(2)
  proof
    assume "state s = STEPS"
    then show ?thesis
      using nq facts
      by (simp add: dispatch_def action_steps_def Let_def assms(3) del: lstrip_Cons)
  next
    assume "state s = TAGGABLE_STATEMENT"
    then show ?thesis
      using facts
      by (simp add: dispatch_def action_taggable_statement_def assms(3))
  qed
  from assms(2) have "state s \<noteq> MULTILINE_TEXT" by auto
  with nc d facts(3) show ?thesis
    by (simp add: action_def assms(3))
qed

lemma background_line_as_description:
  assumes "kwtable s = Some en_keywords"
    and "state s = BACKGROUND \<or> state s = SCENARIO"
    and "strip ln = ''Background:'' @ r"
  shows "action langs ln s = append_description (strip ln) (s\<lparr>last_step_type := None\<rparr>)"
proof -
  let ?s = "s\<lparr>last_step_type := None\<rparr>"
  from assms(3) have nc: "\<not> startswith (strip ln) ''#''" by simp
  from assms(1) have k: "kwtable ?s = Some en_keywords" by simp
  note facts = parse_step_background_line_en [OF k, of r]
    not_taggable_background_en [OF k, of langs r]
  have d: "dispatch langs ln s =
      bindE (append_description (strip ln) ?s) (\<lambda>s3. Inr (True, s3))"
    using assms(2) facts
    by (auto simp: dispatch_def action_background_def action_scenario_def Let_def assms(3))
  from assms(2) have "state s \<noteq> MULTILINE_TEXT" by auto
  with nc d show ?thesis
    by (cases "append_description (strip ln) ?s") (simp_all add: action_def)
qed

text \<open>
  C8, as the code has it. A container has one place for its Background. The ParserError
  "Second Background (can have only one)" is raised by \<^verbatim>\<open>_build_background_statement\<close>, which
  the states Feature and Rule call, when no tags are pending and the Background of the
  container already has steps. A \<^verbatim>\<open>Background:\<close> line that arrives in state Background or
  Scenario is added to the description of the open statement, and one that arrives in
  state Steps or TaggableStatement is rejected with the reason the failure oracle gives for
  a misplaced Background (shown for the English keywords).
\<close>

theorem second_background:
  "(tags s = [] \<longrightarrow> container_background s = Some (own, inh) \<longrightarrow> own \<noteq> [] \<longrightarrow>
      build_background_statement kw ln s =
        Inl (ParserError ''Second Background (can have only one)'' (line s) (filename s)
               (Some ln) None)) \<and>
   (kwtable s = Some en_keywords \<longrightarrow> strip ln = ''Background:'' @ r \<longrightarrow>
      (state s = FEATURE \<or> state s = RULE \<longrightarrow> tags s = [] \<longrightarrow>
         container_background s = Some (own, inh) \<longrightarrow> own \<noteq> [] \<longrightarrow>
         action langs ln s =
           Inl (ParserError ''Second Background (can have only one)'' (line s) (filename s)
                  (Some (strip ln)) None)) \<and>
      (state s = BACKGROUND \<or> state s = SCENARIO \<longrightarrow>
         action langs ln s = append_description (strip ln) (s\<lparr>last_step_type := None\<rparr>)) \<and>
      (state s = STEPS \<or> state s = TAGGABLE_STATEMENT \<longrightarrow>
         action langs ln s =
           Inl (ParserError (CHR 0x0A # ''Parser failure in state='' @ state_name (state s))
                  (line s) (filename s) (Some (strip ln))
                  (Some (diagnose_background_usage_error s)))))"
proof (intro conjI impI)
  assume "tags s = []" "container_background s = Some (own, inh)" "own \<noteq> []"
  then show "build_background_statement kw ln s =
        Inl (ParserError ''Second Background (can have only one)'' (line s) (filename s)
               (Some ln) None)"
    by (rule second_background_guard)
next
  assume k: "kwtable s = Some en_keywords" and l: "strip ln = ''Background:'' @ r"
    and st: "state s = FEATURE \<or> state s = RULE" and g: "tags s = []"
    "container_background s = Some (own, inh)" "own \<noteq> []"
  from l have nc: "\<not> startswith (strip ln) ''#''" by simp
  note facts = not_taggable_background_en [OF k, of langs r] match_background_en [OF k, of langs r]
    second_background_guard [OF g, of "''Background''" "strip ln"]
  have "dispatch langs ln s =
      Inl (ParserError ''Second Background (can have only one)'' (line s) (filename s)
             (Some (strip ln)) None)"
    using st facts
    by (auto simp: dispatch_def action_feature_def action_rule_def Let_def l truthy_def)
  moreover from st have "state s \<noteq> MULTILINE_TEXT" by auto
  ultimately show "action langs ln s =
           Inl (ParserError ''Second Background (can have only one)'' (line s) (filename s)
                  (Some (strip ln)) None)"
    using nc by (simp add: action_def)
next
  assume a: "kwtable s = Some en_keywords" "strip ln = ''Background:'' @ r"
    "state s = BACKGROUND \<or> state s = SCENARIO"
  show "action langs ln s = append_description (strip ln) (s\<lparr>last_step_type := None\<rparr>)"
    by (rule background_line_as_description [OF a(1) a(3) a(2)])
next
  assume a: "kwtable s = Some en_keywords" "strip ln = ''Background:'' @ r"
    "state s = STEPS \<or> state s = TAGGABLE_STATEMENT"
  show "action langs ln s =
           Inl (ParserError (CHR 0x0A # ''Parser failure in state='' @ state_name (state s))
                  (line s) (filename s) (Some (strip ln))
                  (Some (diagnose_background_usage_error s)))"
    by (rule background_line_in_steps [OF a(1) a(3) a(2)])
qed

theorem second_background_witness:
  "tags parser_with_background_steps = [] \<and>
   kwtable parser_with_background_steps = Some en_keywords \<and>
   state parser_with_background_steps = FEATURE \<and>
   container_background parser_with_background_steps =
     Some ([Step None 3 ''Given'' Given ''x''], []) \<and>
   strip ''Background: B'' = ''Background:'' @ '' B'' \<and>
   action en_only ''Background: B'' parser_with_background_steps =
     Inl (ParserError ''Second Background (can have only one)'' 4 None
            (Some ''Background: B'') None) \<and>
   state (parser_in_background\<lparr>line := 3\<rparr>) = BACKGROUND \<and>
   map_sum id feature (action en_only ''Background: B'' (parser_in_background\<lparr>line := 3\<rparr>)) =
     Inr (Some
       \<lparr>feat_filename = None, feat_line = 1, feat_keyword = ''Feature'', feat_name = ''F'',
        feat_tags = [], feat_language = ''en'', feat_description = [],
        feat_body =
          \<lparr>cb_background =
             Some \<lparr>bg_filename = None, bg_line = 2, bg_keyword = ''Background'',
                   bg_name = ''A'', bg_description = [''Background: B''], bg_steps = []\<rparr>,
           cb_scenarios = []\<rparr>,
        feat_rules = [], feat_parser = None\<rparr>) \<and>
   state (parser_in_steps\<lparr>line := 4\<rparr>) = STEPS \<and>
   action en_only ''Background: B'' (parser_in_steps\<lparr>line := 4\<rparr>) =
     Inl (ParserError (CHR 0x0A # ''Parser failure in state=steps'') 4 None
            (Some ''Background: B'')
            (Some ''Background may not occur after Scenario/ScenarioOutline.''))"
proof -
  have sl: "strip ''Background: B'' = ''Background:'' @ '' B''"
    by (simp add: strip_def rstrip_def isspace_def)
  have cb: "container_background parser_with_background_steps =
      Some ([Step None 3 ''Given'' Given ''x''], [])"
    by (simp add: parser_with_background_steps_def container_background_def en_parser_def)
  have k1: "kwtable parser_with_background_steps = Some en_keywords"
    "tags parser_with_background_steps = []" "state parser_with_background_steps = FEATURE"
    "line parser_with_background_steps = 4" "filename parser_with_background_steps = None"
    by (simp_all add: parser_with_background_steps_def en_parser_def)
  have k2: "kwtable (parser_in_background\<lparr>line := 3\<rparr>) = Some en_keywords"
    "state (parser_in_background\<lparr>line := 3\<rparr>) = BACKGROUND"
    by (simp_all add: parser_in_background_def en_parser_def)
  have k3: "kwtable (parser_in_steps\<lparr>line := 4\<rparr>) = Some en_keywords"
    "state (parser_in_steps\<lparr>line := 4\<rparr>) = STEPS"
    "line (parser_in_steps\<lparr>line := 4\<rparr>) = 4" "filename (parser_in_steps\<lparr>line := 4\<rparr>) = None"
    by (simp_all add: parser_in_steps_def en_parser_def)
  have a: "action en_only ''Background: B'' parser_with_background_steps =
     Inl (ParserError ''Second Background (can have only one)'' 4 None
            (Some ''Background: B'') None)"
    using second_background [of parser_with_background_steps "[Step None 3 ''Given'' Given ''x'']"
        "[]" "''Background''" "''Background: B''" "'' B''" en_only] sl cb k1
    by simp
  have b: "action en_only ''Background: B'' (parser_in_background\<lparr>line := 3\<rparr>) =
      append_description ''Background: B'' (parser_in_background\<lparr>line := 3, last_step_type := None\<rparr>)"
    using second_background [of "parser_in_background\<lparr>line := 3\<rparr>" "[]" "[]" "''Background''"
        "''Background: B''" "'' B''" en_only] sl k2
    by simp
  have b': "map_sum id feature
      (append_description ''Background: B'' (parser_in_background\<lparr>line := 3, last_step_type := None\<rparr>)) =
     Inr (Some
       \<lparr>feat_filename = None, feat_line = 1, feat_keyword = ''Feature'', feat_name = ''F'',
        feat_tags = [], feat_language = ''en'', feat_description = [],
        feat_body =
          \<lparr>cb_background =
             Some \<lparr>bg_filename = None, bg_line = 2, bg_keyword = ''Background'',
                   bg_name = ''A'', bg_description = [''Background: B''], bg_steps = []\<rparr>,
           cb_scenarios = []\<rparr>,
        feat_rules = [], feat_parser = None\<rparr>)"
    by (simp add: append_description_def get_statement_def get_container_def
        upd_statement_def upd_container_def on_background_def parser_in_background_def
        en_parser_def)
  have d: "diagnose_background_usage_error (parser_in_steps\<lparr>line := 4\<rparr>) =
      ''Background may not occur after Scenario/ScenarioOutline.''"
    by (simp add: diagnose_background_usage_error_def get_container_def parser_in_steps_def
        feature_A_def en_parser_def)
  have c: "action en_only ''Background: B'' (parser_in_steps\<lparr>line := 4\<rparr>) =
     Inl (ParserError (CHR 0x0A # ''Parser failure in state=steps'') 4 None
            (Some ''Background: B'')
            (Some ''Background may not occur after Scenario/ScenarioOutline.''))"
    using second_background [of "parser_in_steps\<lparr>line := 4\<rparr>" "[]" "[]" "''Background''"
        "''Background: B''" "'' B''" en_only] sl k3 d
    by simp
  show ?thesis
    using a b b' c cb sl k1 k2 k3 by simp
qed

text \<open>
  The claim C8 as stated fails: in \<^verbatim>\<open>Feature: F / Background: A / Background: B\<close> the Feature
  already has a Background when the second \<^verbatim>\<open>Background:\<close> line arrives, and the parse raises
  no error; the line becomes the description of Background A.
\<close>

theorem second_background_counterexample:
  "parse_feature en_only 0 False ''Feature: F\<newline>Background: A\<newline>Background: B\<newline>'' None None =
     Inr (Some
       \<lparr>feat_filename = None, feat_line = 1, feat_keyword = ''Feature'', feat_name = ''F'',
        feat_tags = [], feat_language = ''en'', feat_description = [],
        feat_body =
          \<lparr>cb_background =
             Some \<lparr>bg_filename = None, bg_line = 2, bg_keyword = ''Background'',
                   bg_name = ''A'', bg_description = [''Background: B''], bg_steps = []\<rparr>,
           cb_scenarios = []\<rparr>,
        feat_rules = [], feat_parser = Some 0\<rparr>)"
  by code_simp

lemma second_background_after_steps:
  "parse_feature en_only 0 False ''Feature: F\<newline>Background: A\<newline> Given x\<newline>Background: B\<newline>'' None None =
     Inl (ParserError (CHR 0x0A # ''Parser failure in state=steps'') 4 None
            (Some ''Background: B'') (Some ''Background should not be used here.''))"
  by code_simp

subsection \<open>Doc-strings\<close>



lemma normalize_step_name_upd [simp]:
  "normalize_step_name (s\<lparr>line := n\<rparr>) = normalize_step_name s"
  "normalize_step_name (s\<lparr>lines := ls\<rparr>) = normalize_step_name s"
  by (rule ext, simp add: normalize_step_name_def)+






lemma doc_string_example:
  "parse_feature en_only 0 False
     (''Feature: A\<newline> Scenario: S\<newline>  Given x\<newline>    '' @ triple_double_quotes @
      ''\<newline>    hello\<newline>     world\<newline>    '' @ triple_double_quotes @ ''\<newline>'') None None =
   Inr (Some (feature_A
     \<lparr>feat_body :=
        \<lparr>cb_background = None,
         cb_scenarios =
           [\<lparr>sc_filename = None, sc_line = 2, sc_keyword = ''Scenario'', sc_name = ''S'',
             sc_tags = [], sc_description = [],
             sc_steps =
               [(Step None 3 ''Given'' Given ''x'')
                  \<lparr>step_text := Some \<lparr>text_value = ''hello\<newline> world'',
                                       text_content_type = ''text/plain'',
                                       text_line = Some 4\<rparr>\<rparr>],
             sc_is_outline = False, sc_examples = []\<rparr>]\<rparr>,
      feat_parser := Some 0\<rparr>))"
  by code_simp


subsection \<open>What every handler preserves\<close>

lemma bindE_eq_Inr: "bindE m f = Inr y \<longleftrightarrow> (\<exists>x. m = Inr x \<and> f x = Inr y)"
  by (cases m) auto

lemma upd_last_all:
  assumes "\<forall>x\<in>set xs. P x" and "\<And>x. P x \<Longrightarrow> P (g x)"
  shows "\<forall>x\<in>set (upd_last g xs). P x"
proof (cases "xs = []")
  case True
  then show ?thesis by (simp add: upd_last_def)
next
  case False
  then have "xs = butlast xs @ [last xs]" by simp
  with assms(1) have "\<forall>x\<in>set (butlast xs). P x" "P (last xs)"
    by (metis UnCI set_append, metis False last_in_set)
  with assms(2) False show ?thesis by (auto simp: upd_last_def)
qed

lemma self_upd_rule [simp]: "self (upd_rule g s) = self s"
  by (simp add: upd_rule_def split: rule_ref.splits)

lemma self_upd_container [simp]: "self (upd_container g s) = self s"
  by (simp add: upd_container_def split: container_ref.splits)

lemma self_upd_statement [simp]: "self (upd_statement g s) = self s"
  by (simp add: upd_statement_def split: statement_ref.splits)

lemma table_upd_rule [simp]: "table (upd_rule g s) = table s"
  by (simp add: upd_rule_def split: rule_ref.splits)

lemma table_upd_container [simp]: "table (upd_container g s) = table s"
  by (simp add: upd_container_def split: container_ref.splits)

lemma table_upd_statement [simp]: "table (upd_statement g s) = table s"
  by (simp add: upd_statement_def split: statement_ref.splits)

lemma ast_ok_fields [simp]:
  "ast_ok (s\<lparr>language := a1\<rparr>) = ast_ok s"
  "ast_ok (s\<lparr>kwtable := a2\<rparr>) = ast_ok s"
  "ast_ok (s\<lparr>state := a3\<rparr>) = ast_ok s"
  "ast_ok (s\<lparr>line := a4\<rparr>) = ast_ok s"
  "ast_ok (s\<lparr>last_step_type := a5\<rparr>) = ast_ok s"
  "ast_ok (s\<lparr>multiline_start := a6\<rparr>) = ast_ok s"
  "ast_ok (s\<lparr>multiline_leading := a7\<rparr>) = ast_ok s"
  "ast_ok (s\<lparr>multiline_terminator := a8\<rparr>) = ast_ok s"
  "ast_ok (s\<lparr>filename := a9\<rparr>) = ast_ok s"
  "ast_ok (s\<lparr>scenario_container := b1\<rparr>) = ast_ok s"
  "ast_ok (s\<lparr>tags := b2\<rparr>) = ast_ok s"
  "ast_ok (s\<lparr>lines := b3\<rparr>) = ast_ok s"
  "ast_ok (s\<lparr>table := b4\<rparr>) = ast_ok s"
  "ast_ok (s\<lparr>examples := b5\<rparr>) = ast_ok s"
  by (simp_all add: ast_ok_def)

lemma ast_ok_upd_rule:
  assumes "ast_ok s" and "\<And>r. body_ok (rule_body r) \<Longrightarrow> body_ok (rule_body (g r))"
  shows "ast_ok (upd_rule g s)"
proof (cases "rule s")
  case NoRule
  with assms show ?thesis by (simp add: upd_rule_def)
next
  case (DetachedRule r)
  with assms show ?thesis by (simp add: upd_rule_def ast_ok_def)
next
  case LastRule
  show ?thesis
  proof (cases "feature s")
    case None
    with LastRule assms show ?thesis by (simp add: upd_rule_def ast_ok_def)
  next
    case (Some f)
    with assms(1) have "\<forall>r\<in>set (feat_rules f). body_ok (rule_body r)"
      by (simp add: ast_ok_def feature_ok_def)
    from upd_last_all [where P = "\<lambda>r. body_ok (rule_body r)", OF this assms(2)]
    have "\<forall>r\<in>set (upd_last g (feat_rules f)). body_ok (rule_body r)" by simp
    with Some LastRule assms(1) show ?thesis
      by (simp add: upd_rule_def ast_ok_def feature_ok_def)
  qed
qed

lemma ast_ok_upd_container:
  assumes "ast_ok s" and "\<And>b. body_ok b \<Longrightarrow> body_ok (g b)"
  shows "ast_ok (upd_container g s)"
proof (cases "scenario_container s")
  case NoContainer
  with assms show ?thesis by (simp add: upd_container_def)
next
  case TheFeature
  with assms show ?thesis
    by (auto simp: upd_container_def ast_ok_def feature_ok_def split: option.splits)
next
  case TheRule
  with assms show ?thesis
    by (simp add: upd_container_def ast_ok_upd_rule)
qed

lemma on_rule_ok:
  assumes "\<And>st. stmt_ok st \<Longrightarrow> stmt_ok (g st)" and "body_ok (rule_body r)"
  shows "body_ok (rule_body (on_rule g r))"
  using assms(1) [of "SRule r"] assms(2)
  by (cases "g (SRule r)") (simp_all add: on_rule_def)

lemma on_background_ok:
  assumes "\<And>st. stmt_ok st \<Longrightarrow> stmt_ok (g st)" and "steps_ok (bg_steps b)"
  shows "steps_ok (bg_steps (on_background g b))"
  using assms(1) [of "SBackground b"] assms(2)
  by (cases "g (SBackground b)") (simp_all add: on_background_def)

lemma on_scenario_ok:
  assumes "\<And>st. stmt_ok st \<Longrightarrow> stmt_ok (g st)" and "scenario_ok sc"
  shows "scenario_ok (on_scenario g sc)"
  using assms(1) [of "SScenario sc"] assms(2)
  by (cases "g (SScenario sc)") (simp_all add: on_scenario_def)

lemma ast_ok_upd_statement:
  assumes "ast_ok s" and "\<And>st. stmt_ok st \<Longrightarrow> stmt_ok (g st)"
  shows "ast_ok (upd_statement g s)"
proof (cases "statement s")
  case NoStatement
  with assms show ?thesis by (simp add: upd_statement_def)
next
  case RuleStatement
  with assms(1) on_rule_ok [of g, OF assms(2)] show ?thesis
    by (simp add: upd_statement_def ast_ok_upd_rule)
next
  case BackgroundStatement
  have "\<And>b. body_ok b \<Longrightarrow>
      body_ok (b\<lparr>cb_background := map_option (on_background g) (cb_background b)\<rparr>)"
    using on_background_ok [of g, OF assms(2)]
    by (auto simp: body_ok_def split: option.splits)
  with BackgroundStatement assms(1) show ?thesis
    by (simp add: upd_statement_def ast_ok_upd_container)
next
  case ScenarioStatement
  have "\<And>b. body_ok b \<Longrightarrow>
      body_ok (b\<lparr>cb_scenarios := upd_last (on_scenario g) (cb_scenarios b)\<rparr>)"
  proof -
    fix b
    assume b: "body_ok b"
    then have "\<forall>sc\<in>set (cb_scenarios b). scenario_ok sc" by (simp add: body_ok_def)
    from upd_last_all [where P = scenario_ok, OF this on_scenario_ok [of g, OF assms(2)]]
    have "\<forall>sc\<in>set (upd_last (on_scenario g) (cb_scenarios b)). scenario_ok sc" by simp
    with b show "body_ok (b\<lparr>cb_scenarios := upd_last (on_scenario g) (cb_scenarios b)\<rparr>)"
      by (simp add: body_ok_def)
  qed
  with ScenarioStatement assms(1) show ?thesis
    by (simp add: upd_statement_def ast_ok_upd_container)
next
  case (DetachedScenario sc)
  with assms(1) on_scenario_ok [of g sc, OF assms(2)] show ?thesis
    by (simp add: upd_statement_def ast_ok_def)
qed

lemma body_ok_empty [simp]: "body_ok empty_body"
  by (simp add: body_ok_def empty_body_def)

lemma scenario_ok_new [simp]: "scenario_ok (Scenario outline kw ln s)"
  by (simp add: scenario_ok_def Scenario_def steps_ok_def)

lemma steps_ok_simps [simp]:
  "steps_ok []" "steps_ok (xs @ ys) = (steps_ok xs \<and> steps_ok ys)"
  "steps_ok [st] = table_ok (step_table st)"
  by (auto simp: steps_ok_def)

lemma stmt_map_steps_ok:
  assumes "\<And>xs. steps_ok xs \<Longrightarrow> steps_ok (g xs)" and "stmt_ok st"
  shows "stmt_ok (stmt_map_steps g st)"
  using assms by (cases st) (simp_all add: scenario_ok_def)

lemma stmt_add_description_ok: "stmt_ok st \<Longrightarrow> stmt_ok (stmt_add_description ln st)"
  by (cases st) (simp_all add: scenario_ok_def body_ok_def)

lemma stmt_map_examples_ok:
  assumes "\<And>xs. \<forall>e\<in>set xs. table_ok (ex_table e) \<Longrightarrow> \<forall>e\<in>set (g xs). table_ok (ex_table e)"
    and "stmt_ok st"
  shows "stmt_ok (stmt_map_examples g st)"
proof (cases st)
  case (SScenario sc)
  with assms(2) have "\<forall>e\<in>set (sc_examples sc). table_ok (ex_table e)"
    by (simp add: scenario_ok_def)
  from assms(1) [OF this] SScenario assms(2) show ?thesis
    by (simp add: scenario_ok_def)
qed (use assms(2) in simp_all)

lemma parser_ok_state [simp]:
  "parser_ok me (s\<lparr>state := x\<rparr>) = parser_ok me s"
  "parser_ok me (s\<lparr>line := n\<rparr>) = parser_ok me s"
  "parser_ok me (s\<lparr>last_step_type := t\<rparr>) = parser_ok me s"
  "parser_ok me (s\<lparr>tags := ts\<rparr>) = parser_ok me s"
  "parser_ok me (s\<lparr>lines := ls\<rparr>) = parser_ok me s"
  "parser_ok me (s\<lparr>examples := e\<rparr>) = parser_ok me s"
  by (simp_all add: parser_ok_def)

lemma build_feature_ok: "parser_ok me s \<Longrightarrow> parser_ok me (build_feature kw ln s)"
  by (simp add: parser_ok_def build_feature_def ast_ok_def feature_ok_def split: statement_ref.splits)

lemma build_rule_statement_ok:
  "parser_ok me s \<Longrightarrow> parser_ok me (build_rule_statement kw ln s)"
  by (auto simp: parser_ok_def build_rule_statement_def Let_def ast_ok_def feature_ok_def
      split: option.splits rule_ref.splits)

lemma build_background_statement_ok:
  assumes "parser_ok me s" and "build_background_statement kw ln s = Inr s'"
  shows "parser_ok me s'"
proof -
  let ?g = "\<lambda>b. b\<lparr>cb_background :=
                      Some \<lparr>bg_filename = filename s, bg_line = line s, bg_keyword = kw,
                            bg_name = statement_title kw ln, bg_description = [],
                            bg_steps = []\<rparr>\<rparr>"
  from assms(1) have "ast_ok (upd_container ?g s)"
    by (intro ast_ok_upd_container) (simp_all add: parser_ok_def body_ok_def)
  moreover from assms(2) have "s' = (upd_container ?g s)\<lparr>statement := BackgroundStatement\<rparr>"
    by (simp add: build_background_statement_def split: if_splits)
  ultimately show ?thesis
    using assms(1) by (simp add: parser_ok_def ast_ok_def)
qed

lemma add_scenario_ok:
  assumes "parser_ok me s" and "scenario_ok sc"
  shows "parser_ok me
     ((upd_container (\<lambda>b. b\<lparr>cb_scenarios := cb_scenarios b @ [sc]\<rparr>) s)
        \<lparr>statement := ScenarioStatement, tags := []\<rparr>)"
proof -
  from assms have "ast_ok (upd_container (\<lambda>b. b\<lparr>cb_scenarios := cb_scenarios b @ [sc]\<rparr>) s)"
    by (intro ast_ok_upd_container) (simp_all add: parser_ok_def body_ok_def)
  with assms(1) show ?thesis
    by (simp add: parser_ok_def ast_ok_def)
qed

lemma build_scenario_statement_ok:
  "parser_ok me s \<Longrightarrow> parser_ok me (build_scenario_statement kw ln s)"
  using add_scenario_ok [of me s "Scenario False kw ln s"]
  by (simp add: build_scenario_statement_def parser_ok_def ast_ok_def)

lemma build_scenario_outline_statement_ok:
  assumes "parser_ok me s" and "build_scenario_outline_statement kw ln s = Inr s'"
  shows "parser_ok me s'"
  using assms add_scenario_ok [of me s "Scenario True kw ln s"]
  by (auto simp: build_scenario_outline_statement_def split: if_splits)

lemma upd_statement_ok:
  assumes "parser_ok me s" and "\<And>st. stmt_ok st \<Longrightarrow> stmt_ok (g st)"
  shows "parser_ok me (upd_statement g s)"
  using assms by (simp add: parser_ok_def ast_ok_upd_statement)

lemma build_examples_ok:
  assumes "parser_ok me s" and "build_examples kw ln s = Inr s'"
  shows "parser_ok me s'"
proof -
  let ?e = "\<lparr>ex_filename = filename s, ex_line = line s, ex_keyword = kw,
             ex_name = statement_title kw ln, ex_tags = tags s, ex_table = None\<rparr>"
  have "parser_ok me (upd_statement (stmt_map_examples (\<lambda>xs. xs @ [?e])) s)"
    using assms(1)
    by (intro upd_statement_ok stmt_map_examples_ok) (simp_all add: table_ok_def)
  with assms(2) show ?thesis
    by (auto simp: build_examples_def split: if_splits)
qed

lemma match_keyword_ok:
  assumes "parser_ok me s" and "match_keyword langs k ln s = Inr (r, s')"
  shows "parser_ok me s'"
  using assms
  by (auto simp: match_keyword_def bindE_eq_Inr parser_ok_def split: option.splits)

lemma parse_step_ok:
  assumes "parser_ok me s" and "parse_step ln s = Inr (r, s')"
  shows "parser_ok me s' \<and> (\<forall>st. r = Some st \<longrightarrow> step_table st = None)"
  using assms
  by (auto simp: parse_step_def Let_def Step_def split: option.splits if_splits prod.splits)

lemma append_step_ok:
  assumes "parser_ok me s" and "append_step st s = Inr s'" and "step_table st = None"
  shows "parser_ok me s'"
proof -
  have "parser_ok me (upd_statement (stmt_map_steps (\<lambda>xs. xs @ [st])) s)"
    using assms(1,3)
    by (intro upd_statement_ok stmt_map_steps_ok) (simp_all add: table_ok_def)
  with assms(2) show ?thesis
    by (auto simp: append_step_def bindE_eq_Inr)
qed

lemma upd_last_step_ok:
  assumes "parser_ok me s" and "upd_last_step g s = Inr s'"
    and "\<And>st. table_ok (step_table st) \<Longrightarrow> table_ok (step_table (g st))"
  shows "parser_ok me s'"
proof -
  have "\<And>xs. steps_ok xs \<Longrightarrow> steps_ok (upd_last g xs)"
  proof -
    fix xs
    assume "steps_ok xs"
    then have a: "\<forall>st\<in>set xs. table_ok (step_table st)" by (simp add: steps_ok_def)
    from upd_last_all [where P = "\<lambda>st. table_ok (step_table st)", OF a assms(3)]
    show "steps_ok (upd_last g xs)" by (simp add: steps_ok_def)
  qed
  then have "parser_ok me (upd_statement (stmt_map_steps (upd_last g)) s)"
    using assms(1) by (intro upd_statement_ok stmt_map_steps_ok)
  with assms(2) show ?thesis
    by (auto simp: upd_last_step_def bindE_eq_Inr split: if_splits)
qed

lemma append_description_ok:
  assumes "parser_ok me s" and "append_description ln s = Inr s'"
  shows "parser_ok me s'"
proof -
  have "parser_ok me (upd_statement (stmt_add_description ln) s)"
    using assms(1) by (intro upd_statement_ok stmt_add_description_ok)
  with assms(2) show ?thesis
    by (auto simp: append_description_def split: option.splits)
qed

lemma parser_ok_more_fields [simp]:
  "parser_ok me (s\<lparr>multiline_start := a1\<rparr>) = parser_ok me s"
  "parser_ok me (s\<lparr>multiline_leading := a2\<rparr>) = parser_ok me s"
  "parser_ok me (s\<lparr>multiline_terminator := a3\<rparr>) = parser_ok me s"
  "parser_ok me (s\<lparr>language := a4\<rparr>) = parser_ok me s"
  "parser_ok me (s\<lparr>kwtable := a5\<rparr>) = parser_ok me s"
  "parser_ok me (s\<lparr>filename := a6\<rparr>) = parser_ok me s"
  by (simp_all add: parser_ok_def)

lemma parser_ok_table:
  "parser_ok me (s\<lparr>table := t\<rparr>) = (self s = me \<and> table_ok t \<and> ast_ok s)"
  by (simp add: parser_ok_def)

lemma parser_ok_description:
  assumes "parser_ok me s" and "feature s = Some f"
  shows "parser_ok me (s\<lparr>feature := Some (f\<lparr>feat_description := d\<rparr>)\<rparr>)"
  using assms by (simp add: parser_ok_def ast_ok_def feature_ok_def)

lemma parser_ok_rule_description:
  assumes "parser_ok me s"
  shows "parser_ok me (upd_rule (\<lambda>r. r\<lparr>rule_description := d r\<rparr>) s)"
  using assms by (simp add: parser_ok_def ast_ok_upd_rule)

lemmas match_keyword_ok' = match_keyword_ok [rotated]
lemmas build_background_statement_ok' = build_background_statement_ok [rotated]
lemmas build_scenario_outline_statement_ok' = build_scenario_outline_statement_ok [rotated]
lemmas build_examples_ok' = build_examples_ok [rotated]
lemmas append_description_ok' = append_description_ok [rotated]

lemma subaction_ok:
  assumes "subaction_detect_taggable_statement langs ln s = Inr (b, s')" and "parser_ok me s"
  shows "parser_ok me s'"
proof (cases "startswith ln ''@''")
  case True
  with assms show ?thesis
    by (auto simp: subaction_detect_taggable_statement_def bindE_eq_Inr)
next
  case False
  from assms(1) False obtain r1 s1 where
    m1: "match_keyword langs K_rule ln s = Inr (r1, s1)"
    by (auto simp: subaction_detect_taggable_statement_def bindE_eq_Inr)
  from match_keyword_ok' [OF m1 assms(2)] have o1: "parser_ok me s1" .
  show ?thesis
  proof (cases "truthy r1")
    case True
    with assms(1) False m1 o1 show ?thesis
      by (auto simp: subaction_detect_taggable_statement_def build_rule_statement_ok)
  next
    case n1: False
    from assms(1) False m1 n1 obtain r2 s2 where
      m2: "match_keyword langs K_scenario ln s1 = Inr (r2, s2)"
      by (auto simp: subaction_detect_taggable_statement_def bindE_eq_Inr)
    from match_keyword_ok' [OF m2 o1] have o2: "parser_ok me s2" .
    show ?thesis
    proof (cases "truthy r2")
      case True
      with assms(1) False m1 n1 m2 o2 show ?thesis
        by (auto simp: subaction_detect_taggable_statement_def build_scenario_statement_ok)
    next
      case n2: False
      from assms(1) False m1 n1 m2 n2 obtain r3 s3 where
        m3: "match_keyword langs K_scenario_outline ln s2 = Inr (r3, s3)"
        by (auto simp: subaction_detect_taggable_statement_def bindE_eq_Inr)
      from match_keyword_ok' [OF m3 o2] have o3: "parser_ok me s3" .
      show ?thesis
      proof (cases "truthy r3")
        case True
        with assms(1) False m1 n1 m2 n2 m3 o3 show ?thesis
          by (auto simp: subaction_detect_taggable_statement_def bindE_eq_Inr
              dest: build_scenario_outline_statement_ok')
      next
        case n3: False
        from assms(1) False m1 n1 m2 n2 m3 n3 obtain r4 s4 where
          m4: "match_keyword langs K_examples ln s3 = Inr (r4, s4)"
          by (auto simp: subaction_detect_taggable_statement_def bindE_eq_Inr)
        from match_keyword_ok' [OF m4 o3] have o4: "parser_ok me s4" .
        from assms(1) False m1 n1 m2 n2 m3 n3 m4 o4 show ?thesis
          by (auto simp: subaction_detect_taggable_statement_def bindE_eq_Inr
              split: if_splits dest: build_examples_ok')
      qed
    qed
  qed
qed

lemma action_initial_ok:
  assumes "action_initial langs ln s = Inr (b, s')" and "parser_ok me s"
  shows "parser_ok me s'"
  using assms
  by (auto simp: action_initial_def Let_def bindE_eq_Inr build_feature_ok
      split: if_splits dest: match_keyword_ok')

lemma background_or_description_ok:
  assumes "match_keyword langs K_background ln s1 = Inr (r, s2)" and "parser_ok me s1"
    and "(if truthy r
          then bindE (build_background_statement (the r) ln s2)
                 (\<lambda>s3. Inr (True, s3\<lparr>state := BACKGROUND\<rparr>))
          else rest s2) = Inr (b, s')"
    and "\<And>s3. parser_ok me s3 \<Longrightarrow> rest s3 = Inr (b, s') \<Longrightarrow> parser_ok me s'"
  shows "parser_ok me s'"
proof -
  from match_keyword_ok' [OF assms(1,2)] have o: "parser_ok me s2" .
  show ?thesis
  proof (cases "truthy r")
    case True
    with assms(3) o show ?thesis
      by (auto simp: bindE_eq_Inr dest: build_background_statement_ok')
  next
    case False
    with assms(3) have "rest s2 = Inr (b, s')" by simp
    with o show ?thesis by (rule assms(4))
  qed
qed

lemma action_feature_ok:
  assumes "action_feature langs ln s = Inr (b, s')" and "parser_ok me s"
  shows "parser_ok me s'"
proof -
  from assms(1) obtain d s1 where
    sub: "subaction_detect_taggable_statement langs (strip ln) s = Inr (d, s1)"
    by (auto simp: action_feature_def Let_def bindE_eq_Inr)
  from subaction_ok [OF sub assms(2)] have o1: "parser_ok me s1" .
  show ?thesis
  proof (cases d)
    case True
    with assms(1) sub o1 show ?thesis by (simp add: action_feature_def Let_def)
  next
    case False
    with assms(1) sub obtain r s2 where
      m: "match_keyword langs K_background (strip ln) s1 = Inr (r, s2)"
      by (auto simp: action_feature_def Let_def bindE_eq_Inr)
    show ?thesis
    proof (rule background_or_description_ok [OF m o1])
      from assms(1) sub False m
      show "(if truthy r
          then bindE (build_background_statement (the r) (strip ln) s2)
                 (\<lambda>s3. Inr (True, s3\<lparr>state := BACKGROUND\<rparr>))
          else (\<lambda>s2. case feature s2 of
                   None \<Rightarrow> Inl AttributeError
                 | Some f \<Rightarrow>
                     Inr (True, s2\<lparr>feature :=
                            Some (f\<lparr>feat_description := feat_description f @ [strip ln]\<rparr>)\<rparr>)) s2)
        = Inr (b, s')"
        by (simp add: action_feature_def Let_def)
    next
      fix s3
      assume "parser_ok me s3"
        and "(case feature s3 of
                   None \<Rightarrow> Inl AttributeError
                 | Some f \<Rightarrow>
                     Inr (True, s3\<lparr>feature :=
                            Some (f\<lparr>feat_description := feat_description f @ [strip ln]\<rparr>)\<rparr>))
          = Inr (b, s')"
      then show "parser_ok me s'"
        by (auto split: option.splits intro: parser_ok_description)
    qed
  qed
qed

lemma action_rule_ok:
  assumes "action_rule langs ln s = Inr (b, s')" and "parser_ok me s"
  shows "parser_ok me s'"
proof -
  from assms(1) obtain d s1 where
    sub: "subaction_detect_taggable_statement langs (strip ln) s = Inr (d, s1)"
    by (auto simp: action_rule_def Let_def bindE_eq_Inr)
  from subaction_ok [OF sub assms(2)] have o1: "parser_ok me s1" .
  show ?thesis
  proof (cases d)
    case True
    with assms(1) sub o1 show ?thesis by (simp add: action_rule_def Let_def)
  next
    case False
    with assms(1) sub obtain r s2 where
      m: "match_keyword langs K_background (strip ln) s1 = Inr (r, s2)"
      by (auto simp: action_rule_def Let_def bindE_eq_Inr)
    show ?thesis
    proof (rule background_or_description_ok [OF m o1])
      from assms(1) sub False m
      show "(if truthy r
          then bindE (build_background_statement (the r) (strip ln) s2)
                 (\<lambda>s3. Inr (True, s3\<lparr>state := BACKGROUND\<rparr>))
          else (\<lambda>s2. if get_rule s2 = None then Inl AttributeError
                 else Inr (True,
                  upd_rule (\<lambda>r. r\<lparr>rule_description := rule_description r @ [strip ln]\<rparr>) s2)) s2)
        = Inr (b, s')"
        by (simp add: action_rule_def Let_def)
    next
      fix s3
      assume "parser_ok me s3"
        and "(if get_rule s3 = None then Inl AttributeError
                 else Inr (True,
                  upd_rule (\<lambda>r. r\<lparr>rule_description := rule_description r @ [strip ln]\<rparr>) s3))
          = Inr (b, s')"
      then show "parser_ok me s'"
        by (auto split: if_splits intro: parser_ok_rule_description)
    qed
  qed
qed

lemma action_taggable_statement_ok:
  assumes "action_taggable_statement langs ln s = Inr (b, s')" and "parser_ok me s"
  shows "parser_ok me s'"
  using assms
  by (auto simp: action_taggable_statement_def bindE_eq_Inr split: if_splits dest: subaction_ok)

lemma action_scenario_ok:
  assumes "action_scenario langs ln s = Inr (b, s')" and "parser_ok me s"
  shows "parser_ok me s'"
proof -
  from assms(1) obtain step s1 where
    p: "parse_step (strip ln) (s\<lparr>last_step_type := None\<rparr>) = Inr (step, s1)"
    by (auto simp: action_scenario_def Let_def bindE_eq_Inr)
  from assms(2) have "parser_ok me (s\<lparr>last_step_type := None\<rparr>)" by simp
  from parse_step_ok [OF this p]
  have o1: "parser_ok me s1" and nt: "\<forall>st. step = Some st \<longrightarrow> step_table st = None"
    by simp_all
  show ?thesis
  proof (cases step)
    case (Some st)
    with nt have t: "step_table st = None" by simp
    from assms(1) p Some have "append_step st (s1\<lparr>state := STEPS\<rparr>) = Inr s'"
      by (auto simp: action_scenario_def Let_def bindE_eq_Inr)
    from append_step_ok [OF _ this t] o1 show ?thesis by simp
  next
    case None
    with assms(1) p obtain d s2 where
      sub: "subaction_detect_taggable_statement langs (strip ln) s1 = Inr (d, s2)"
      by (auto simp: action_scenario_def Let_def bindE_eq_Inr)
    from subaction_ok [OF sub o1] have o2: "parser_ok me s2" .
    from assms(1) p None sub o2 show ?thesis
      by (auto simp: action_scenario_def Let_def bindE_eq_Inr split: if_splits
          dest: append_description_ok')
  qed
qed

lemma rectangular_Table [simp]: "rectangular (Table cells n)"
  by (simp add: rectangular_def Table_def)

lemma rectangular_add_row:
  "rectangular t \<Longrightarrow> length cells = length (table_headings t) \<Longrightarrow> rectangular (add_row cells n t)"
  by (auto simp: rectangular_def add_row_def)

lemma table_row_ok:
  assumes "table_row ln s = Inr (b, s')" and "parser_ok me s"
  shows "parser_ok me s'"
  using assms
  by (auto simp: table_row_def Let_def parser_ok_def table_ok_def rectangular_add_row
      split: if_splits option.splits)

lemma action_steps_ok:
  assumes "action_steps langs ln s = Inr (b, s')" and "parser_ok me s"
  shows "parser_ok me s'"
proof (cases "startswith (lstrip ln) triple_double_quotes \<or>
    startswith (lstrip ln) triple_single_quotes")
  case True
  with assms show ?thesis
    by (auto simp: action_steps_def Let_def bindE_eq_Inr split: if_splits option.splits
        simp del: lstrip_Cons)
next
  case False
  with assms(1) obtain step s1 where p: "parse_step (strip ln) s = Inr (step, s1)"
    by (auto simp: action_steps_def Let_def bindE_eq_Inr)
  from parse_step_ok [OF assms(2) p]
  have o1: "parser_ok me s1" and nt: "\<forall>st. step = Some st \<longrightarrow> step_table st = None"
    by simp_all
  show ?thesis
  proof (cases step)
    case (Some st)
    with nt have t: "step_table st = None" by simp
    from assms(1) False p Some have "append_step st s1 = Inr s'"
      by (auto simp: action_steps_def Let_def bindE_eq_Inr)
    from append_step_ok [OF o1 this t] show ?thesis .
  next
    case None
    with assms(1) False p obtain d s2 where
      sub: "subaction_detect_taggable_statement langs (strip ln) s1 = Inr (d, s2)"
      by (auto simp: action_steps_def Let_def bindE_eq_Inr)
    from subaction_ok [OF sub o1] have o2: "parser_ok me s2" .
    then have o3: "parser_ok me (s2\<lparr>state := TABLE\<rparr>)" by simp
    from assms(1) False p None sub o2 table_row_ok [OF _ o3] show ?thesis
      by (auto simp: action_steps_def Let_def bindE_eq_Inr split: if_splits)
  qed
qed

lemma action_table_ok:
  assumes "action_table langs ln s = Inr (b, s')" and "parser_ok me s"
  shows "parser_ok me s'"
proof (cases "startswith (strip ln) ''|''")
  case True
  with assms show ?thesis
    by (auto simp: action_table_def Let_def dest: table_row_ok)
next
  case False
  from assms(2) have t: "table_ok (table s)" by (simp add: parser_ok_def)
  have "\<exists>s1. parser_ok me s1 \<and>
      action_steps langs (strip ln) (s1\<lparr>table := None, state := STEPS\<rparr>) = Inr (b, s')"
  proof (cases "examples s")
    case True
    have "parser_ok me
        (upd_statement (stmt_map_examples (upd_last (\<lambda>e. e\<lparr>ex_table := table s\<rparr>))) s)"
      using assms(2)
    proof (intro upd_statement_ok stmt_map_examples_ok)
      fix xs :: "examples_node list"
      assume a: "\<forall>e\<in>set xs. table_ok (ex_table e)"
      show "\<forall>e\<in>set (upd_last (\<lambda>e. e\<lparr>ex_table := table s\<rparr>) xs). table_ok (ex_table e)"
        by (rule upd_last_all [where P = "\<lambda>e. table_ok (ex_table e)", OF a]) (simp add: t)
    qed simp_all
    then have "parser_ok me
        ((upd_statement (stmt_map_examples (upd_last (\<lambda>e. e\<lparr>ex_table := table s\<rparr>))) s)
           \<lparr>examples := False\<rparr>)"
      by simp
    moreover from assms(1) False True
    have "action_steps langs (strip ln)
        (((upd_statement (stmt_map_examples (upd_last (\<lambda>e. e\<lparr>ex_table := table s\<rparr>))) s)
            \<lparr>examples := False\<rparr>)\<lparr>table := None, state := STEPS\<rparr>) = Inr (b, s')"
      by (simp add: action_table_def Let_def)
    ultimately show ?thesis by blast
  next
    case ne: False
    from assms(1) False ne obtain s1 where
      u: "upd_last_step (\<lambda>st. normalize_step_name s (st\<lparr>step_table := table s\<rparr>)) s = Inr s1"
      and a: "action_steps langs (strip ln) (s1\<lparr>table := None, state := STEPS\<rparr>) = Inr (b, s')"
      by (auto simp: action_table_def Let_def bindE_eq_Inr)
    from upd_last_step_ok [OF assms(2) u] t have "parser_ok me s1"
      by (simp add: normalize_step_name_def)
    with a show ?thesis by blast
  qed
  then obtain s1 where o: "parser_ok me s1"
    and a: "action_steps langs (strip ln) (s1\<lparr>table := None, state := STEPS\<rparr>) = Inr (b, s')"
    by blast
  from o have "parser_ok me (s1\<lparr>table := None, state := STEPS\<rparr>)"
    by (simp add: parser_ok_def table_ok_def)
  from action_steps_ok [OF a this] show ?thesis .
qed

lemma action_multiline_text_ok:
  assumes "action_multiline_text ln s = Inr (b, s')" and "parser_ok me s"
  shows "parser_ok me s'"
proof (cases "multiline_terminator s")
  case None
  with assms show ?thesis by (simp add: action_multiline_text_def)
next
  case (Some terminator)
  show ?thesis
  proof (cases "startswith (strip ln) terminator")
    case True
    with assms(1) Some obtain s1 where
      u: "upd_last_step
            (\<lambda>st. normalize_step_name s
               (st\<lparr>step_text := Some \<lparr>text_value = join [CHR 0x0A] (lines s),
                                        text_content_type = ''text/plain'',
                                        text_line = multiline_start s\<rparr>\<rparr>)) s = Inr s1"
      and e: "s' = s1\<lparr>lines := [], multiline_terminator := None, state := STEPS\<rparr>"
      by (auto simp: action_multiline_text_def bindE_eq_Inr)
    from upd_last_step_ok [OF assms(2) u] have "parser_ok me s1"
      by (simp add: normalize_step_name_def)
    with e show ?thesis by simp
  next
    case False
    with assms Some show ?thesis
      by (auto simp: action_multiline_text_def Let_def split: if_splits)
  qed
qed

lemma dispatch_ok:
  assumes "dispatch langs ln s = Inr (b, s')" and "parser_ok me s"
  shows "parser_ok me s'"
  using assms
  by (cases "state s")
    (auto simp: dispatch_def action_background_def
      dest: action_initial_ok action_feature_ok action_rule_ok action_scenario_ok
        action_taggable_statement_ok action_steps_ok action_multiline_text_ok action_table_ok)

lemma action_ok:
  assumes "action langs ln s = Inr s'" and "parser_ok me s"
  shows "parser_ok me s'"
proof (cases "startswith (strip ln) ''#'' \<and> state s \<noteq> MULTILINE_TEXT")
  case True
  with assms show ?thesis
    by (auto simp: action_def Let_def bindE_eq_Inr split: if_splits)
next
  case False
  with assms(1) obtain b s1 where d: "dispatch langs ln s = Inr (b, s1)"
    and r: "(if b then Inr s1 else
       bindE (ask_parse_failure_oracle langs (strip ln) s1) (\<lambda>(reason, s2).
              Inl (ParserError (CHR 0x0A # ''Parser failure in state='' @ state_name (state s2))
                     (line s2) (filename s2) (Some (strip ln)) reason))) = Inr s'"
    by (auto simp: action_def bindE_eq_Inr)
  from r have "b \<and> s' = s1" by (cases b) simp_all
  with dispatch_ok [OF d assms(2)] show ?thesis by simp
qed

lemma run_lines_ok:
  assumes "run_lines langs lns s = Inr s'" and "parser_ok me s"
  shows "parser_ok me s'"
  using assms
proof (induction lns arbitrary: s)
  case Nil
  then show ?case by simp
next
  case (Cons ln lns)
  let ?s1 = "s\<lparr>line := line s + 1\<rparr>"
  from Cons.prems(2) have o1: "parser_ok me ?s1" by simp
  show ?case
  proof (cases "strip ln = [] \<and> state ?s1 \<noteq> MULTILINE_TEXT")
    case True
    with Cons.prems(1) have "run_lines langs lns ?s1 = Inr s'" by (simp add: Let_def)
    from Cons.IH [OF this o1] show ?thesis .
  next
    case False
    with Cons.prems(1) obtain s2 where a: "action langs ln ?s1 = Inr s2"
      and r: "run_lines langs lns s2 = Inr s'"
      by (cases "action langs ln ?s1") (auto simp: Let_def)
    from Cons.IH [OF r action_ok [OF a o1]] show ?thesis .
  qed
qed

lemma reset_ok:
  assumes "reset langs fn p = Inr s0"
  shows "parser_ok (self p) s0 \<and> state s0 = INITIAL"
  using assms
  by (auto simp: reset_def Let_def bindE_eq_Inr parser_ok_def table_ok_def ast_ok_def)

lemma parse_loop_ok:
  assumes "parse_loop langs txt None fn p = Inr s'"
  shows "parser_ok (self p) s'"
proof -
  from assms obtain s0 where r0: "reset langs fn p = Inr s0"
    by (auto simp: parse_loop_def bindE_eq_Inr)
  from reset_ok [OF r0] have o0: "parser_ok (self p) s0" and st: "state s0 = INITIAL"
    by simp_all
  from assms r0 st obtain s3 where r3: "run_lines langs (splitlines txt) s0 = Inr s3"
    and f: "(if table s3 \<noteq> None then bindE (action_table langs [] s3) (\<lambda>(_, s4). Inr s4)
             else Inr s3) = Inr s'"
    by (auto simp: parse_loop_def bindE_eq_Inr)
  from run_lines_ok [OF r3 o0] have o3: "parser_ok (self p) s3" .
  show ?thesis
  proof (cases "table s3 = None")
    case True
    with f o3 show ?thesis by simp
  next
    case False
    with f obtain b where "action_table langs [] s3 = Inr (b, s')"
      by (auto simp: bindE_eq_Inr)
    from action_table_ok [OF this o3] show ?thesis .
  qed
qed

subsection \<open>Tables\<close>

lemma parse_feature_ok:
  assumes "parse langs txt fn p = Inr (Some f)"
  shows "feature_ok f \<and> feat_parser f = Some (self p)"
proof -
  from assms obtain s1 where l: "parse_loop langs txt None fn p = Inr s1"
    and r: "(case feature s1 of None \<Rightarrow> None
             | Some f \<Rightarrow> Some (f\<lparr>feat_parser := Some (self s1)\<rparr>)) = Some f"
    by (auto simp: parse_def bindE_eq_Inr)
  from parse_loop_ok [OF l] have o: "parser_ok (self p) s1" .
  from r obtain f1 where f1: "feature s1 = Some f1" and f: "f = f1\<lparr>feat_parser := Some (self s1)\<rparr>"
    by (auto split: option.splits)
  from o f1 have "feature_ok f1" "self s1 = self p"
    by (simp_all add: parser_ok_def ast_ok_def)
  with f show ?thesis by (simp add: feature_ok_def)
qed

lemma table_row_in_state_table:
  assumes "state s = TABLE" and "startswith (strip ln) ''|''"
    and "row_matches (strip ln) \<or> feature s \<noteq> None"
  shows "action langs ln s =
     (case table s of
        None \<Rightarrow> Inr (s\<lparr>table := Some (Table (table_cells (strip ln)) (line s))\<rparr>)
      | Some t \<Rightarrow>
          if length (table_cells (strip ln)) = length (table_headings t)
          then Inr (s\<lparr>table := Some (add_row (table_cells (strip ln)) (line s) t)\<rparr>)
          else Inl (ParserError ''Malformed table'' (line s) (filename s) None None))"
proof -
  from assms(2) have nc: "\<not> startswith (strip ln) ''#''"
    by (cases "strip ln") auto
  from assms have "dispatch langs ln s = table_row (strip ln) s"
    by (simp add: dispatch_def action_table_def Let_def)
  with nc assms(3) show ?thesis
    by (auto simp: action_def table_row_def Let_def split: option.splits)
qed

text \<open>
  C3: every table of a Feature returned by a successful whole-file parse is rectangular:
  each of its rows has exactly as many cells as the table has headings. In state Table the
  first pipe row becomes the headings of a new table; each further pipe row with as many
  cells as the headings is added as a row, and a row with another number of cells raises
  the ParserError "Malformed table". (A row that does not end with a pipe is only logged,
  which needs the Feature to exist.)
\<close>

theorem tables_rectangular:
  "(parse langs txt fn p = Inr (Some f) \<longrightarrow> feature_ok f) \<and>
   (state s = TABLE \<longrightarrow> startswith (strip ln) ''|'' \<longrightarrow>
    row_matches (strip ln) \<or> feature s \<noteq> None \<longrightarrow>
    action langs ln s =
     (case table s of
        None \<Rightarrow> Inr (s\<lparr>table := Some (Table (table_cells (strip ln)) (line s))\<rparr>)
      | Some t \<Rightarrow>
          if length (table_cells (strip ln)) = length (table_headings t)
          then Inr (s\<lparr>table := Some (add_row (table_cells (strip ln)) (line s) t)\<rparr>)
          else Inl (ParserError ''Malformed table'' (line s) (filename s) None None)))"
  using parse_feature_ok [of langs "txt" "fn" p f] table_row_in_state_table [of s ln langs]
  by blast

lemma outline_parse: "parse en_only outline_text None en_parser = Inr (Some outline_feature)"
  by code_simp

theorem tables_rectangular_witness:
  "parse en_only outline_text None en_parser = Inr (Some outline_feature) \<and>
   feature_ok outline_feature \<and>
   state parser_in_table = TABLE \<and> feature parser_in_table = Some feature_A \<and>
   table parser_in_table = Some (Table [''n''] 4) \<and>
   action en_only ''   | 1 |'' parser_in_table =
     Inr (parser_in_table\<lparr>table := Some (add_row [''1''] 4 (Table [''n''] 4))\<rparr>) \<and>
   action en_only ''   | 1 | 2 |'' parser_in_table =
     Inl (ParserError ''Malformed table'' 4 None None None) \<and>
   action en_only ''   | m |'' (parser_in_table\<lparr>table := None\<rparr>) =
     Inr (parser_in_table\<lparr>table := Some (Table [''m''] 4)\<rparr>)"
proof -
  have q: "\<not> isspace CHR ''|''" "\<not> isspace CHR ''1''" "\<not> isspace CHR ''2''" "\<not> isspace CHR ''m''"
    by (simp_all add: isspace_def)
  have s1: "strip ''   | 1 |'' = ''| 1 |''" "strip ''   | 1 | 2 |'' = ''| 1 | 2 |''"
    "strip ''   | m |'' = ''| m |''"
    by (simp_all add: strip_def rstrip_def q)
  have c: "table_cells ''| 1 |'' = [''1'']" "table_cells ''| 1 | 2 |'' = [''1'', ''2'']"
    "table_cells ''| m |'' = [''m'']"
    by (simp_all add: table_cells_def strip_def rstrip_def q)
  have h: "state parser_in_table = TABLE" "feature parser_in_table = Some feature_A"
    "table parser_in_table = Some (Table [''n''] 4)" "line parser_in_table = 4"
    "filename parser_in_table = None"
    by (simp_all add: parser_in_table_def parser_in_steps_def en_parser_def)
  have h': "state (parser_in_table\<lparr>table := None\<rparr>) = TABLE"
    "feature (parser_in_table\<lparr>table := None\<rparr>) \<noteq> None"
    by (simp_all add: h)
  have a: "feature_ok outline_feature"
    using tables_rectangular [of en_only outline_text None en_parser outline_feature]
      outline_parse by blast
  have r1: "action en_only ''   | 1 |'' parser_in_table =
     Inr (parser_in_table\<lparr>table := Some (add_row [''1''] 4 (Table [''n''] 4))\<rparr>)"
    using tables_rectangular [where s = parser_in_table and ln = "''   | 1 |''" and langs = en_only]
    by (simp add: h s1 c Table_def)
  have r2: "action en_only ''   | 1 | 2 |'' parser_in_table =
     Inl (ParserError ''Malformed table'' 4 None None None)"
    using tables_rectangular [where s = parser_in_table and ln = "''   | 1 | 2 |''" and langs = en_only]
    by (simp add: h s1 c Table_def)
  have r3: "action en_only ''   | m |'' (parser_in_table\<lparr>table := None\<rparr>) =
     Inr (parser_in_table\<lparr>table := Some (Table [''m''] 4)\<rparr>)"
    using tables_rectangular [where s = "parser_in_table\<lparr>table := None\<rparr>"
        and ln = "''   | m |''" and langs = en_only]
    by (simp add: h s1 c)
  show ?thesis
    using outline_parse a h r1 r2 r3 by simp
qed

subsection \<open>The reference to the parser\<close>

text \<open>
  C9, as the code has it: \<^verbatim>\<open>Parser.parse\<close> ends with \<^verbatim>\<open>feature.parser = self\<close>, so the Feature
  returned by a successful whole-file parse refers, in its attribute \<^verbatim>\<open>parser\<close>, to the
  parser object that produced it.
\<close>

theorem feature_refers_to_parser:
  assumes "parse langs txt fn p = Inr (Some f)"
  shows "feat_parser f = Some (self p)"
  using parse_feature_ok [OF assms] by simp

theorem feature_refers_to_parser_witness:
  "parse en_only outline_text None en_parser = Inr (Some outline_feature) \<and>
   feat_parser outline_feature = Some (self en_parser)"
  using feature_refers_to_parser [of en_only outline_text None en_parser outline_feature]
    outline_parse
  by simp

text \<open>
  The claim C9 as stated fails: the Feature that the parser with identity 7 returns for
  \<^verbatim>\<open>Feature: A\<close> has this parser as its attribute \<^verbatim>\<open>parser\<close>.
\<close>

theorem feature_parser_counterexample:
  "parse_feature en_only 7 False ''Feature: A\<newline>'' None None =
     Inr (Some
       \<lparr>feat_filename = None, feat_line = 1, feat_keyword = ''Feature'', feat_name = ''A'',
        feat_tags = [], feat_language = ''en'', feat_description = [],
        feat_body = \<lparr>cb_background = None, cb_scenarios = []\<rparr>,
        feat_rules = [], feat_parser = Some 7\<rparr>)"
  by code_simp

end
